theory Spec2Isabelle
  imports Complex_Main
begin

section \<open>Tables\<close>

text \<open>
  Both programs work on pandas data frames. A frame is its list of column labels and
  its list of rows; a row gives the cell under each label. What a row says under a
  label that is not a column of the frame is never read by the programs. The readers
  give every column a label of its own; stripping or renaming labels can make two of
  them equal. Where that happens to the identifier label the two loaders fail as the
  source does (see \<open>load_mix\<close> and \<open>load_master\<close>); for any other repeated label the
  model reads the first column of that label.
  \<open>DataFrame\<close> builds a frame from a header and records, \<open>to_values\<close> and \<open>to_csv\<close>
  read it back as records under the header, and \<open>col\<close> is one column as a list.
\<close>

record 'c frame =
  columns :: "string list"
  rows :: "(string \<Rightarrow> 'c) list"

datatype error = MissingKeyColumn | KeyError string | ValueError string | AttributeError string

definition DataFrame :: "string list \<Rightarrow> 'c \<Rightarrow> 'c list list \<Rightarrow> 'c frame" where
  "DataFrame cs na vs =
     \<lparr>columns = cs, rows = map (\<lambda>v c. case map_of (zip cs v) c of None \<Rightarrow> na | Some x \<Rightarrow> x) vs\<rparr>"

definition to_values :: "'c frame \<Rightarrow> 'c list list" where
  "to_values f = map (\<lambda>r. map r (columns f)) (rows f)"

definition to_csv :: "'c frame \<Rightarrow> string list \<times> 'c list list" where
  "to_csv f = (columns f, to_values f)"

definition col :: "string \<Rightarrow> 'c frame \<Rightarrow> 'c list" where
  "col c f = map (\<lambda>r. r c) (rows f)"

text \<open>
  Column assignment \<^verbatim>\<open>df[c] = ...\<close>: the column is replaced where it exists and
  appended at the end where it does not.
\<close>

definition assign :: "string \<Rightarrow> ((string \<Rightarrow> 'c) \<Rightarrow> 'c) \<Rightarrow> 'c frame \<Rightarrow> 'c frame" where
  "assign c g f =
     \<lparr>columns = (if c \<in> set (columns f) then columns f else columns f @ [c]),
      rows = map (\<lambda>r. r(c := g r)) (rows f)\<rparr>"

section \<open>The enrichment script (merge\_menu\_data.py)\<close>

text \<open>
  Both inputs are read with \<^verbatim>\<open>dtype=str\<close>, so a cell is a string or missing (NaN):
  \<open>Some s\<close> or \<open>None\<close>. Reading the two files and writing the two outputs are the
  library's; \<open>main\<close> takes the two tables as they are read and returns the table it
  writes together with the three numbers it prints.

  A character is a code point below 256. \<open>isspace\<close> is Python's \<^verbatim>\<open>str.isspace\<close> on
  these: the ASCII white space 9--13 and 32, the separators 28--31, and the next-line
  and no-break space characters U+0085 and U+00A0. \<open>strip\<close> is \<^verbatim>\<open>str.strip()\<close>, which
  removes leading and trailing characters of that kind, and \<open>astype_str\<close> is
  \<^verbatim>\<open>astype(str)\<close> on one cell (a missing cell becomes the text \<^verbatim>\<open>nan\<close>).
\<close>

definition isspace :: "char \<Rightarrow> bool" where
  "isspace c = (c \<in> set [CHR 0x09, CHR 0x0A, CHR 0x0B, CHR 0x0C, CHR 0x0D,
                           CHR 0x1C, CHR 0x1D, CHR 0x1E, CHR 0x1F, CHR 0x20,
                           CHR 0x85, CHR 0xA0])"

definition strip :: "string \<Rightarrow> string" where
  "strip s = rev (dropWhile isspace (rev (dropWhile isspace s)))"

definition astype_str :: "string option \<Rightarrow> string" where
  "astype_str v = (case v of None \<Rightarrow> ''nan'' | Some s \<Rightarrow> s)"

definition startswith :: "string \<Rightarrow> string \<Rightarrow> bool" where
  "startswith s p = (take (length p) s = p)"

text \<open>
  Frame operations of the library that the script uses: replacing the header
  (\<open>set_columns\<close>, each row keeps its cells under the new labels), \<^verbatim>\<open>rename\<close> with a
  dictionary, selecting columns, dropping a column.
\<close>

definition relabel ::
  "string list \<Rightarrow> string list \<Rightarrow> (string \<Rightarrow> string option) \<Rightarrow> (string \<Rightarrow> string option)" where
  "relabel new old r = (\<lambda>c. case map_of (zip new old) c of None \<Rightarrow> None | Some c0 \<Rightarrow> r c0)"

definition set_columns :: "string list \<Rightarrow> string option frame \<Rightarrow> string option frame" where
  "set_columns new f = \<lparr>columns = new, rows = map (relabel new (columns f)) (rows f)\<rparr>"

definition rename :: "(string \<times> string) list \<Rightarrow> string option frame \<Rightarrow> string option frame" where
  "rename m f =
     set_columns (map (\<lambda>c. case map_of m c of None \<Rightarrow> c | Some n \<Rightarrow> n) (columns f)) f"

definition select :: "string list \<Rightarrow> string option frame \<Rightarrow> string option frame" where
  "select cs f =
     \<lparr>columns = cs, rows = map (\<lambda>r c. if c \<in> set cs then r c else None) (rows f)\<rparr>"

definition drop_column :: "string \<Rightarrow> string option frame \<Rightarrow> string option frame" where
  "drop_column c f =
     \<lparr>columns = filter (\<lambda>x. x \<noteq> c) (columns f), rows = map (\<lambda>r. r(c := None)) (rows f)\<rparr>"

text \<open>
  Lines 18--31: strip the headers, rename an alias of the identifier column, fail when
  there is none, clean the identifiers. \<open>MissingKeyColumn\<close> is the \<^verbatim>\<open>ValueError\<close> of
  line 28. When more than one column is labelled \<^verbatim>\<open>ItemID\<close> at line 31 (two headers
  that are equal after stripping), \<^verbatim>\<open>df_mix["ItemID"]\<close> is a table and not a column,
  and its \<^verbatim>\<open>.str\<close> raises \<^verbatim>\<open>AttributeError\<close>.
\<close>

definition load_mix :: "string option frame \<Rightarrow> error + string option frame" where
  "load_mix df_mix0 =
     (let df_mix = set_columns (map strip (columns df_mix0)) df_mix0;
          df_mix =
            (if ''Item ID'' \<in> set (columns df_mix) \<and> ''ItemID'' \<notin> set (columns df_mix)
             then rename [(''Item ID'', ''ItemID'')] df_mix
             else if ''ItemId'' \<in> set (columns df_mix) \<and> ''ItemID'' \<notin> set (columns df_mix)
             then rename [(''ItemId'', ''ItemID'')] df_mix
             else df_mix)
      in if ''ItemID'' \<notin> set (columns df_mix) then Inl MissingKeyColumn
         else if 1 < count_list (columns df_mix) ''ItemID'' then Inl (AttributeError ''str'')
         else Inr (assign ''ItemID'' (\<lambda>r. Some (strip (astype_str (r ''ItemID'')))) df_mix))"

text \<open>
  Lines 44--65, on the master table as \<^verbatim>\<open>read_excel\<close> returns it: standard column
  names, Product Class filled downwards, the needed columns kept in the order of
  \<open>needed\<close>, rows without an identifier dropped (a \<^verbatim>\<open>KeyError\<close> when the column itself
  is not there), identifiers cleaned. When the renaming leaves more than one column
  labelled \<^verbatim>\<open>ItemID\<close>, the selection of line 61 keeps them all and line 65 fails on
  \<^verbatim>\<open>.str\<close> as line 31 does.
\<close>

fun ffill :: "string \<Rightarrow> string option \<Rightarrow> (string \<Rightarrow> string option) list \<Rightarrow> (string \<Rightarrow> string option) list" where
  "ffill c prev [] = []"
| "ffill c prev (r # rs) =
     (case r c of None \<Rightarrow> r(c := prev) # ffill c prev rs
      | Some v \<Rightarrow> r # ffill c (Some v) rs)"

definition needed :: "string list" where
  "needed = [''ItemID'', ''Item Name'', ''Revenue Category'', ''Item Group'', ''Product Class'']"

definition standardize_columns :: "string option frame \<Rightarrow> string option frame" where
  "standardize_columns df_master =
     (let rename_map =
            [(''Item ID'', ''ItemID''), (''Item Name'', ''Item Name''),
             (''Default Revenue Category'', ''Revenue Category''), (''Item Group'', ''Item Group'')]
            @ map (\<lambda>col. (col, ''Product Class''))
                (filter (\<lambda>col. startswith col ''Unnamed'') (columns df_master))
      in rename rename_map df_master)"

definition ffill_product_class :: "string option frame \<Rightarrow> string option frame" where
  "ffill_product_class df_master =
     (if ''Product Class'' \<in> set (columns df_master)
      then df_master\<lparr>rows := ffill ''Product Class'' None (rows df_master)\<rparr>
      else df_master)"

definition keep_needed :: "string option frame \<Rightarrow> string option frame" where
  "keep_needed df_master = select (filter (\<lambda>c. c \<in> set (columns df_master)) needed) df_master"

definition clean_master_keys :: "string option frame \<Rightarrow> error + string option frame" where
  "clean_master_keys df_master =
     (if ''ItemID'' \<notin> set (columns df_master) then Inl (KeyError ''ItemID'')
      else Inr (assign ''ItemID'' (\<lambda>r. Some (strip (astype_str (r ''ItemID''))))
                  (df_master\<lparr>rows := filter (\<lambda>r. r ''ItemID'' \<noteq> None) (rows df_master)\<rparr>)))"

definition load_master :: "string option frame \<Rightarrow> error + string option frame" where
  "load_master df_master0 =
     (let df_master = ffill_product_class (standardize_columns df_master0)
      in if 1 < count_list (columns df_master) ''ItemID'' then Inl (AttributeError ''str'')
         else clean_master_keys (keep_needed df_master))"

text \<open>
  Line 68, \<^verbatim>\<open>df_mix.merge(df_master, on="ItemID", how="left")\<close>: the rows of the left
  table in their order, each joined with every row of the right table that has the
  same key, in the right table's order, or with missing cells when there is none.
  A column other than the key that both tables have is kept twice, under the suffixes
  \<^verbatim>\<open>_x\<close> and \<^verbatim>\<open>_y\<close>. Both tables have the key column when \<open>main\<close> merges them.
\<close>

definition join_rows ::
  "string list \<Rightarrow> string list \<Rightarrow> (string \<Rightarrow> string option) \<Rightarrow> (string \<Rightarrow> string option) \<Rightarrow> (string \<Rightarrow> string option)" where
  "join_rows lc rc l m = (\<lambda>c. if c \<in> set lc then l c else if c \<in> set rc then m c else None)"

definition suffixed :: "string list \<Rightarrow> string \<Rightarrow> string \<Rightarrow> string" where
  "suffixed overlap sfx c = (if c \<in> set overlap then c @ sfx else c)"

definition merge_left :: "string \<Rightarrow> string option frame \<Rightarrow> string option frame \<Rightarrow> string option frame" where
  "merge_left key left right =
     (let overlap = filter (\<lambda>c. c \<noteq> key \<and> c \<in> set (columns right)) (columns left);
          L = set_columns (map (suffixed overlap ''_x'') (columns left)) left;
          R = set_columns (map (suffixed overlap ''_y'') (columns right)) right;
          rc = filter (\<lambda>c. c \<noteq> key) (columns R)
      in \<lparr>columns = columns L @ rc,
          rows = concat (map (\<lambda>l. case filter (\<lambda>m. m key = l key) (rows R) of
                                      [] \<Rightarrow> [join_rows (columns L) rc l (\<lambda>c. None)]
                                    | ms \<Rightarrow> map (join_rows (columns L) rc l) ms)
                             (rows L))\<rparr>)"

text \<open>
  Lines 70--77 (the name is the master's where the master has one, the original
  otherwise), lines 79--88 (the three classification columns right after the name),
  lines 94--99 (the numbers printed) and \<open>main\<close> itself.
\<close>

definition resolve_names :: "string option frame \<Rightarrow> string option frame" where
  "resolve_names df_out =
     (if ''Item Name'' \<in> set (columns df_out)
      then drop_column ''Item Name''
             (if ''ItemName'' \<in> set (columns df_out)
              then assign ''ItemName''
                     (\<lambda>r. if r ''Item Name'' \<noteq> None then r ''Item Name'' else r ''ItemName'') df_out
              else assign ''ItemName'' (\<lambda>r. r ''Item Name'') df_out)
      else df_out)"

definition place_columns :: "string option frame \<Rightarrow> string option frame" where
  "place_columns df_out =
     (let new_cols = filter (\<lambda>c. c \<in> set (columns df_out))
                        [''Product Class'', ''Revenue Category'', ''Item Group'']
      in if ''ItemName'' \<in> set (columns df_out)
         then (let cols = fold remove1 new_cols (columns df_out);
                   insert_at = length (takeWhile (\<lambda>c. c \<noteq> ''ItemName'') cols) + 1
               in select (take insert_at cols @ new_cols @ drop insert_at cols) df_out)
         else df_out)"

record report =
  df_out :: "string option frame"
  total :: nat
  matched :: nat
  unmatched :: nat

definition diagnostics :: "string option frame \<Rightarrow> string option frame \<Rightarrow> report" where
  "diagnostics df_mix out =
     \<lparr>df_out = out,
      total = length (rows df_mix),
      matched = (if ''ItemName'' \<in> set (columns out)
                 then length (filter (\<lambda>r. r ''ItemName'' \<noteq> None) (rows out)) else 0),
      unmatched = (if ''ItemName'' \<in> set (columns out)
                   then length (remdups (filter (\<lambda>v. v \<noteq> None)
                          (map (\<lambda>r. r ''ItemID'') (filter (\<lambda>r. r ''ItemName'' = None) (rows out)))))
                   else 0)\<rparr>"

definition main :: "string option frame \<Rightarrow> string option frame \<Rightarrow> error + report" where
  "main mix_csv master_xlsx =
     (case load_mix mix_csv of Inl e \<Rightarrow> Inl e
      | Inr df_mix \<Rightarrow>
          (case load_master master_xlsx of Inl e \<Rightarrow> Inl e
           | Inr df_master \<Rightarrow>
               Inr (diagnostics df_mix
                      (place_columns (resolve_names (merge_left ''ItemID'' df_mix df_master))))))"

section \<open>The dashboard (pmix\_dashboard.py)\<close>

subsection \<open>Timestamps and the ski-season label (load\_data)\<close>

text \<open>
  A business date is a pandas Timestamp. Only the fields the program reads are kept:
  the calendar year, month and day, and the time of day (nanoseconds since midnight),
  which is what makes one instant of a day later than another when two timestamps
  are compared. \<open>Timestamp y m d\<close> is \<^verbatim>\<open>pd.Timestamp(year=y, month=m, day=d)\<close>:
  midnight of that day. The comparison \<open>ts_le\<close> is chronological order, which on
  calendar fields is the lexicographic order of (year, month, day, time of day).
  The range of years a Timestamp can hold depends on the pandas version and is not
  modelled: constructing the two interval ends is taken to succeed.
\<close>

record timestamp =
  year :: int
  month :: nat
  day :: nat
  tod :: nat

definition Timestamp :: "int \<Rightarrow> nat \<Rightarrow> nat \<Rightarrow> timestamp" where
  "Timestamp y m d = \<lparr>year = y, month = m, day = d, tod = 0\<rparr>"

definition ts_le :: "timestamp \<Rightarrow> timestamp \<Rightarrow> bool" where
  "ts_le a b =
     (year a < year b \<or> (year a = year b \<and>
       (month a < month b \<or> (month a = month b \<and>
         (day a < day b \<or> (day a = day b \<and> tod a \<le> tod b))))))"

text \<open>Python's \<^verbatim>\<open>str\<close> of an integer, as the f-string of the label formats it.\<close>

definition digit_char :: "nat \<Rightarrow> char" where
  "digit_char n = ''0123456789'' ! n"

fun digits :: "nat \<Rightarrow> string" where
  "digits n = (if n < 10 then [digit_char n] else digits (n div 10) @ [digit_char (n mod 10)])"

declare digits.simps [simp del]

definition py_str :: "int \<Rightarrow> string" where
  "py_str i = (if i < 0 then CHR ''-'' # digits (nat (- i)) else digits (nat i))"

text \<open>The label \<^verbatim>\<open>f"{start_year}-{start_year+1}"\<close>.\<close>

definition season_name :: "int \<Rightarrow> string" where
  "season_name start_year = py_str start_year @ ''-'' @ py_str (start_year + 1)"

text \<open>
  \<^verbatim>\<open>ski_season_label(d)\<close>: the candidate start year from month and day (the
  \<^verbatim>\<open>if\<close>/\<^verbatim>\<open>elif\<close>/\<^verbatim>\<open>else\<close> chain, in the source's order), then the check against
  the two interval ends. \<open>None\<close> is Python's \<^verbatim>\<open>None\<close>, the off-season.
\<close>

definition ski_season_label :: "timestamp \<Rightarrow> string option" where
  "ski_season_label d =
     (let m = month d; dd = day d; y = year d in
      case (if m > 11 \<or> (m = 11 \<and> dd \<ge> 10) \<or> m = 12 then Some y
            else if m < 4 \<or> (m = 4 \<and> dd \<le> 20) then Some (y - 1)
            else None) of
        None \<Rightarrow> None
      | Some start_year \<Rightarrow>
          (let start = Timestamp start_year 11 10;
               end = Timestamp (start_year + 1) 4 20
           in if ts_le start d \<and> ts_le d end then Some (season_name start_year) else None))"

subsection \<open>Cells of the dashboard table\<close>

text \<open>
  The dashboard's table holds text, numbers (the metrics after \<^verbatim>\<open>to_numeric\<close>),
  timestamps and, once \<open>aggregate\<close> has run on the day-of-week slice, values of the ordered
  categorical of the seven day names: \<open>Cat k\<close> is the day at position \<open>k\<close> of
  \<open>ordered_days\<close>. \<open>NaN\<close> is a missing cell of any type (NaN, None, NaT).
  \<open>boolean_mask\<close> is row selection \<^verbatim>\<open>q[mask]\<close>.
\<close>

datatype cell = NaN | Str string | Num real | Ts timestamp | Cat nat

definition boolean_mask :: "((string \<Rightarrow> 'c) \<Rightarrow> bool) \<Rightarrow> 'c frame \<Rightarrow> 'c frame" where
  "boolean_mask keep q = q\<lparr>rows := filter keep (rows q)\<rparr>"

subsection \<open>filter\_df\<close>

text \<open>
  Lines 55--66. The filters are the dictionary's items in its order; a column with an
  empty list of values is skipped, any other must be a column of the table
  (\<^verbatim>\<open>KeyError\<close> otherwise) and keeps the rows whose cell is one of the values.
  A date range is a pair of optional bounds, each compared with BusinessDate when it
  is given; a cell that is no timestamp (NaT) satisfies no bound.
  The function works on a copy (line 56), so the table it is given is the same
  afterwards: the model returns that table next to the result.
\<close>

fun column_filters :: "(string \<times> cell list) list \<Rightarrow> cell frame \<Rightarrow> error + cell frame" where
  "column_filters [] q = Inr q"
| "column_filters ((column, values) # filters) q =
     (if values \<noteq> []
      then (if column \<in> set (columns q)
            then column_filters filters (boolean_mask (\<lambda>r. r column \<in> set values) q)
            else Inl (KeyError column))
      else column_filters filters q)"

definition on_or_after :: "timestamp \<Rightarrow> cell \<Rightarrow> bool" where
  "on_or_after start v = (case v of Ts t \<Rightarrow> ts_le start t | _ \<Rightarrow> False)"

definition on_or_before :: "timestamp \<Rightarrow> cell \<Rightarrow> bool" where
  "on_or_before end v = (case v of Ts t \<Rightarrow> ts_le t end | _ \<Rightarrow> False)"

definition date_bound ::
  "(timestamp \<Rightarrow> cell \<Rightarrow> bool) \<Rightarrow> timestamp option \<Rightarrow> cell frame \<Rightarrow> error + cell frame" where
  "date_bound cmp bound q =
     (case bound of
        None \<Rightarrow> Inr q
      | Some t \<Rightarrow> if ''BusinessDate'' \<in> set (columns q)
                  then Inr (boolean_mask (\<lambda>r. cmp t (r ''BusinessDate'')) q)
                  else Inl (KeyError ''BusinessDate''))"

definition filter_df ::
  "cell frame \<Rightarrow> (string \<times> cell list) list \<Rightarrow> (timestamp option \<times> timestamp option) option
     \<Rightarrow> error + cell frame \<times> cell frame" where
  "filter_df df filters date_range =
     (case column_filters filters df of
        Inl e \<Rightarrow> Inl e
      | Inr q \<Rightarrow>
          (case date_range of
             None \<Rightarrow> Inr (df, q)
           | Some (start, end) \<Rightarrow>
               (case date_bound on_or_after start q of
                  Inl e \<Rightarrow> Inl e
                | Inr q \<Rightarrow>
                    (case date_bound on_or_before end q of
                       Inl e \<Rightarrow> Inl e
                     | Inr q \<Rightarrow> Inr (df, q)))))"

subsection \<open>aggregate\<close>

text \<open>
  Line 76: \<^verbatim>\<open>pd.Categorical(values, categories=ordered_days, ordered=True)\<close>, cell by
  cell: a day name becomes its category, anything else becomes missing.
\<close>

definition ordered_days :: "string list" where
  "ordered_days = [''Monday'', ''Tuesday'', ''Wednesday'', ''Thursday'', ''Friday'',
                   ''Saturday'', ''Sunday'']"

definition Categorical :: "cell \<Rightarrow> cell" where
  "Categorical v =
     (case v of
        Str s \<Rightarrow> if s \<in> set ordered_days
                 then Cat (length (takeWhile (\<lambda>d. d \<noteq> s) ordered_days)) else NaN
      | Cat k \<Rightarrow> if k < length ordered_days then Cat k else NaN
      | _ \<Rightarrow> NaN)"

text \<open>
  Orders used for sorting: text by code points, numbers, timestamps and categories by
  their own order, a missing cell after every other (\<^verbatim>\<open>na_position="last"\<close>), and
  group keys lexicographically. Cells of one column have one type; between cells of
  different types the order is fixed arbitrarily. \<open>sort_by\<close> is a stable insertion sort:
  rows that compare equal keep their order (pandas leaves the order of ties of a
  single-column sort to the sorting algorithm; no statement below depends on it
  except through \<open>top_labels\<close>, which is defined with the same sort).
\<close>

fun str_le :: "string \<Rightarrow> string \<Rightarrow> bool" where
  "str_le [] t = True"
| "str_le (a # s) [] = False"
| "str_le (a # s) (b # t) = ((of_char a :: nat) < of_char b \<or> (a = b \<and> str_le s t))"

fun cell_le :: "cell \<Rightarrow> cell \<Rightarrow> bool" where
  "cell_le v NaN = True"
| "cell_le NaN v = False"
| "cell_le (Str a) (Str b) = str_le a b"
| "cell_le (Num a) (Num b) = (a \<le> b)"
| "cell_le (Ts a) (Ts b) = ts_le a b"
| "cell_le (Cat a) (Cat b) = (a \<le> b)"
| "cell_le (Str a) v = True"
| "cell_le v (Str b) = False"
| "cell_le (Num a) v = True"
| "cell_le v (Num b) = False"
| "cell_le (Ts a) v = True"
| "cell_le v (Ts b) = False"

fun key_le :: "cell list \<Rightarrow> cell list \<Rightarrow> bool" where
  "key_le [] t = True"
| "key_le (a # s) [] = False"
| "key_le (a # s) (b # t) = (if a = b then key_le s t else cell_le a b)"

fun insert_by :: "('a \<Rightarrow> 'a \<Rightarrow> bool) \<Rightarrow> 'a \<Rightarrow> 'a list \<Rightarrow> 'a list" where
  "insert_by le x [] = [x]"
| "insert_by le x (y # ys) = (if le x y then x # y # ys else y # insert_by le x ys)"

definition sort_by :: "('a \<Rightarrow> 'a \<Rightarrow> bool) \<Rightarrow> 'a list \<Rightarrow> 'a list" where
  "sort_by le xs = foldr (insert_by le) xs []"

definition sort_values :: "string list \<Rightarrow> cell frame \<Rightarrow> cell frame" where
  "sort_values cols f = f\<lparr>rows := sort_by (\<lambda>a b. key_le (map a cols) (map b cols)) (rows f)\<rparr>"

text \<open>
  \<^verbatim>\<open>groupby(cols, dropna=False)[metric].sum(min_count=n).reset_index()\<close>:
  one row per group key, the keys sorted, missing keys kept as groups of their own.
  The sum of a group skips missing cells and is missing when fewer than \<open>n\<close> cells of
  the group are numbers. When the first grouping column is the day-of-week categorical
  and the library is asked for unobserved categories as well (\<open>all_categories\<close>), every
  day appears, combined with every value combination of the other grouping columns
  that occurs in the table.
\<close>

definition numbers :: "cell list \<Rightarrow> real list" where
  "numbers vs = concat (map (\<lambda>v. case v of Num x \<Rightarrow> [x] | _ \<Rightarrow> []) vs)"

definition sum_min_count :: "nat \<Rightarrow> cell list \<Rightarrow> cell" where
  "sum_min_count min_count vs =
     (if length (numbers vs) < min_count then NaN else Num (sum_list (numbers vs)))"

definition group_keys :: "bool \<Rightarrow> string list \<Rightarrow> cell frame \<Rightarrow> cell list list" where
  "group_keys all_categories cols q =
     (let seen = remdups (map (\<lambda>r. map r cols) (rows q));
          others = (if tl cols = [] then [[]] else remdups (map tl seen))
      in sort_by key_le
           (if all_categories
            then remdups (concat (map (\<lambda>k. map (\<lambda>rest. Cat k # rest) others)
                                      [0..<length ordered_days]) @ seen)
            else seen))"

definition group_row :: "string list \<Rightarrow> string \<Rightarrow> cell list \<Rightarrow> cell \<Rightarrow> (string \<Rightarrow> cell)" where
  "group_row cols metric k v =
     (\<lambda>c. if c = metric then v else case map_of (zip cols k) c of None \<Rightarrow> NaN | Some x \<Rightarrow> x)"

definition groupby_sum ::
  "bool \<Rightarrow> nat \<Rightarrow> string list \<Rightarrow> string \<Rightarrow> cell frame \<Rightarrow> cell frame" where
  "groupby_sum all_categories min_count cols metric q =
     \<lparr>columns = cols @ [metric],
      rows = map (\<lambda>k. group_row cols metric k
                         (sum_min_count min_count
                            (map (\<lambda>r. r metric) (filter (\<lambda>r. map r cols = k) (rows q)))))
                 (group_keys all_categories cols q)\<rparr>"

text \<open>
  Lines 68--86. \<open>group_columns\<close> is line 83; the comparison dimension is optional
  (\<open>None\<close> and the empty string both count as not selected).
  The result has three components: the table that was passed in, as it is after the
  call, the grouped table, and the time key. On the day-of-week slice line 76 assigns
  the categorical column to the caller's table itself, so the first component is the
  table with that column replaced; on the ski-season slice line 79 rebinds the local
  name to a filtered copy and the caller's table is as before.
  \<open>observed\<close> is the value of the \<^verbatim>\<open>observed\<close> option that \<^verbatim>\<open>groupby\<close>
  defaults to in the installed pandas (unobserved categories are listed when it is
  false). A missing grouping or metric column is a \<^verbatim>\<open>KeyError\<close>; a column that is
  used twice among the grouping columns and the metric makes \<^verbatim>\<open>reset_index\<close> fail.
\<close>

definition group_columns :: "string \<Rightarrow> string option \<Rightarrow> string list" where
  "group_columns time_key compare_by =
     time_key # (case compare_by of None \<Rightarrow> [] | Some c \<Rightarrow> if c = [] then [] else [c])"

definition aggregate ::
  "bool \<Rightarrow> cell frame \<Rightarrow> string \<Rightarrow> string option \<Rightarrow> string
     \<Rightarrow> error + cell frame \<times> cell frame \<times> string" where
  "aggregate observed q time_slice compare_by metric =
     (case (if time_slice = ''Month'' then Inr (''Month'', q, q)
            else if time_slice = ''Week'' then Inr (''WeekStart'', q, q)
            else if time_slice = ''Day of Week''
            then (if ''DayOfWeek'' \<in> set (columns q)
                  then (let q = assign ''DayOfWeek'' (\<lambda>r. Categorical (r ''DayOfWeek'')) q
                        in Inr (''DayOfWeek'', q, q))
                  else Inl (KeyError ''DayOfWeek''))
            else if time_slice = ''Ski Season''
            then (if ''SkiSeason'' \<in> set (columns q)
                  then Inr (''SkiSeason'', q, boolean_mask (\<lambda>r. r ''SkiSeason'' \<noteq> NaN) q)
                  else Inl (KeyError ''SkiSeason''))
            else Inr (''Month'', q, q)) of
        Inl e \<Rightarrow> Inl e
      | Inr (time_key, q_passed, q) \<Rightarrow>
          (let cols = group_columns time_key compare_by
           in case find (\<lambda>c. c \<notin> set (columns q)) (cols @ [metric]) of
                Some c \<Rightarrow> Inl (KeyError c)
              | None \<Rightarrow>
                  if \<not> distinct (cols @ [metric]) then Inl (ValueError ''cannot insert, already exists'')
                  else Inr (q_passed,
                            sort_values cols
                              (groupby_sum (time_slice = ''Day of Week'' \<and> \<not> observed) 1 cols metric q),
                            time_key)))"

subsection \<open>make\_fig and the page\<close>

text \<open>
  Lines 88--101. The figure is kept as the arguments that \<^verbatim>\<open>px.bar\<close> or \<^verbatim>\<open>px.line\<close>
  receive; drawing is the library's. \<open>as_str\<close> is \<^verbatim>\<open>astype(str)\<close> on one cell, whose
  text for numbers and timestamps is the library's: it is a parameter.
  The function copies the aggregated table (line 89) and restricts the copy, so the
  result has three components as well: the aggregated table after the call, the figure
  and the restricted copy, which the program calls the view.
  The totals of line 91 are sums without \<^verbatim>\<open>min_count\<close>: a value whose metric cells
  are all missing has total 0.
\<close>

record figure =
  chart :: string
  data_frame :: "cell frame"
  x_axis :: string
  y_axis :: string
  color :: "string option"
  title :: string

definition make_fig ::
  "(cell \<Rightarrow> string) \<Rightarrow> cell frame \<Rightarrow> string \<Rightarrow> string option \<Rightarrow> string \<Rightarrow> string \<Rightarrow> nat
     \<Rightarrow> error + cell frame \<times> figure \<times> cell frame" where
  "make_fig as_str agg time_key compare_by metric chart_type top_n =
     (case (case group_columns time_key compare_by of
              [t, c] \<Rightarrow>
                (case find (\<lambda>x. x \<notin> set (columns agg)) [c, metric] of
                   Some x \<Rightarrow> Inl (KeyError x)
                 | None \<Rightarrow>
                     if metric = c then Inl (ValueError ''cannot insert, already exists'')
                     else (let totals = groupby_sum False 0 [c] metric agg;
                               ranked = sort_by (\<lambda>a b. cell_le (b metric) (a metric)) (rows totals);
                               keep = set (map (\<lambda>r. as_str (r c)) (take top_n ranked))
                           in Inr (boolean_mask (\<lambda>r. as_str (r c) \<in> keep) agg)))
            | _ \<Rightarrow> Inr agg) of
        Inl e \<Rightarrow> Inl e
      | Inr data \<Rightarrow>
          Inr (agg,
               \<lparr>chart = (if chart_type = ''Bar'' then ''bar'' else ''line''),
                data_frame = data, x_axis = time_key, y_axis = metric,
                color = (case group_columns time_key compare_by of [t, c] \<Rightarrow> Some c | _ \<Rightarrow> None),
                title = metric @ '' by '' @ time_key
                        @ (case group_columns time_key compare_by of [t, c] \<Rightarrow> '' and '' @ c | _ \<Rightarrow> '''')\<rparr>,
               data))"

text \<open>
  Lines 145--170, without the three KPI tiles and the PNG export: what the page shows
  and the two tables the download buttons write. The sidebar always passes a
  comparison dimension.
\<close>

record page =
  plotly_chart :: figure
  dataframe :: "cell frame"
  filtered_rows :: "cell frame"
  aggregated_view :: "cell frame"

definition app ::
  "(cell \<Rightarrow> string) \<Rightarrow> bool \<Rightarrow> cell frame \<Rightarrow> (string \<times> cell list) list
     \<Rightarrow> (timestamp option \<times> timestamp option) option \<Rightarrow> string \<Rightarrow> string \<Rightarrow> string \<Rightarrow> nat \<Rightarrow> string
     \<Rightarrow> error + page" where
  "app as_str observed df filters date_range metric time_slice compare_by top_n chart_type =
     (case filter_df df filters date_range of
        Inl e \<Rightarrow> Inl e
      | Inr (df, q) \<Rightarrow>
          (case aggregate observed q time_slice (Some compare_by) metric of
             Inl e \<Rightarrow> Inl e
           | Inr (q, agg, time_key) \<Rightarrow>
               (case make_fig as_str agg time_key (Some compare_by) metric chart_type top_n of
                  Inl e \<Rightarrow> Inl e
                | Inr (agg, fig, view) \<Rightarrow>
                    Inr \<lparr>plotly_chart = fig, dataframe = view,
                         filtered_rows = q, aggregated_view = view\<rparr>)))"

section \<open>Notions of the specification and example tables\<close>

text \<open>
  The closed interval of the specification, from Nov 10 of \<open>Y\<close> to Apr 20 of \<open>Y + 1\<close>,
  is an interval of calendar dates: a business date lies in it when its day is Nov 10
  of \<open>Y\<close> or later and Apr 20 of \<open>Y + 1\<close> or earlier, at whatever time of that day.
  \<open>date_le\<close> is the order of calendar dates (year, month, day).
\<close>

definition date :: "timestamp \<Rightarrow> int \<times> nat \<times> nat" where
  "date t = (year t, month t, day t)"

fun date_le :: "int \<times> nat \<times> nat \<Rightarrow> int \<times> nat \<times> nat \<Rightarrow> bool" where
  "date_le (y, m, d) (y', m', d') = (y < y' \<or> (y = y' \<and> (m < m' \<or> (m = m' \<and> d \<le> d'))))"

definition in_season :: "int \<Rightarrow> timestamp \<Rightarrow> bool" where
  "in_season Y d = (date_le (Y, 11, 10) (date d) \<and> date_le (date d) (Y + 1, 4, 20))"

text \<open>
  A business date on Apr 20 with a time of day after midnight, for instance a row
  stamped 2024-04-20 12:00:00.
\<close>

definition after_midnight_apr_20 :: "timestamp \<Rightarrow> bool" where
  "after_midnight_apr_20 d = (month d = 4 \<and> day d = 20 \<and> 0 < tod d)"

definition noon_apr_20_2024 :: timestamp where
  "noon_apr_20_2024 = \<lparr>year = 2024, month = 4, day = 20, tod = 43200000000000\<rparr>"

text \<open>Reading a label back: the start year is the number in front of the separator.\<close>

definition is_digit :: "char \<Rightarrow> bool" where
  "is_digit c = (c \<in> set ''0123456789'')"

definition digit_val :: "char \<Rightarrow> nat" where
  "digit_val c = of_char c - 48"

definition digits_val :: "string \<Rightarrow> nat" where
  "digits_val s = foldl (\<lambda>a c. 10 * a + digit_val c) 0 s"

definition season_start :: "string \<Rightarrow> int" where
  "season_start s =
     (if hd s = CHR ''-'' then - int (digits_val (takeWhile is_digit (tl s)))
      else int (digits_val (takeWhile is_digit s)))"



text \<open>
  The left join of the specification, on rows: every transaction row, in order, paired
  with each master entry of the same identifier (\<open>Some e\<close>), or with no entry (\<open>None\<close>)
  when the master has none. \<open>resolved_name\<close> is the name the pair resolves to;
  \<open>master_name_used\<close> and \<open>original_name_kept\<close> say of an enriched row that it carries
  the identifier of the pair and the master's name where the master has one, and the
  original name where the matched master entry has none;
  \<open>master_name_always_used\<close> is the stronger reading under which a matched row takes the
  master's name field whatever that field holds.
\<close>

definition matches ::
  "(string \<Rightarrow> string option) list \<Rightarrow> (string \<Rightarrow> string option) \<Rightarrow> (string \<Rightarrow> string option) list" where
  "matches master l = filter (\<lambda>e. e ''ItemID'' = l ''ItemID'') master"

definition left_join ::
  "(string \<Rightarrow> string option) list \<Rightarrow> (string \<Rightarrow> string option) list
     \<Rightarrow> ((string \<Rightarrow> string option) \<times> (string \<Rightarrow> string option) option) list" where
  "left_join ts master =
     concat (map (\<lambda>l. case matches master l of
                          [] \<Rightarrow> [(l, None)]
                        | es \<Rightarrow> map (\<lambda>e. (l, Some e)) es) ts)"

definition resolved_name ::
  "(string \<Rightarrow> string option) \<times> (string \<Rightarrow> string option) option \<Rightarrow> string option" where
  "resolved_name p =
     (case snd p of
        None \<Rightarrow> fst p ''ItemName''
      | Some e \<Rightarrow> if e ''Item Name'' \<noteq> None then e ''Item Name'' else fst p ''ItemName'')"





definition candidates ::
  "string \<Rightarrow> (string \<Rightarrow> string option) list \<Rightarrow> (string \<Rightarrow> string option) \<Rightarrow> (string \<Rightarrow> string option) list" where
  "candidates key es l = (case filter (\<lambda>e. e key = l key) es of [] \<Rightarrow> [\<lambda>c. None] | ms \<Rightarrow> ms)"

definition entry_or_blank :: "(string \<Rightarrow> string option) option \<Rightarrow> (string \<Rightarrow> string option)" where
  "entry_or_blank me = (case me of None \<Rightarrow> (\<lambda>c. None) | Some e \<Rightarrow> e)"

definition merge_row ::
  "string \<Rightarrow> string list \<Rightarrow> string list \<Rightarrow> (string \<Rightarrow> string option) \<Rightarrow> (string \<Rightarrow> string option)
     \<Rightarrow> (string \<Rightarrow> string option)" where
  "merge_row key lc rc l e =
     (let overlap = filter (\<lambda>c. c \<noteq> key \<and> c \<in> set rc) lc;
          L = map (suffixed overlap ''_x'') lc;
          R = map (suffixed overlap ''_y'') rc
      in join_rows L (filter (\<lambda>c. c \<noteq> key) R) (relabel L lc l) (relabel R rc e))"

definition resolve_row :: "string list \<Rightarrow> (string \<Rightarrow> string option) \<Rightarrow> (string \<Rightarrow> string option)" where
  "resolve_row cols r =
     (if ''Item Name'' \<in> set cols
      then (r(''ItemName'' :=
               (if ''ItemName'' \<in> set cols
                then (if r ''Item Name'' \<noteq> None then r ''Item Name'' else r ''ItemName'')
                else r ''Item Name'')))(''Item Name'' := None)
      else r)"

definition place_row :: "string list \<Rightarrow> (string \<Rightarrow> string option) \<Rightarrow> (string \<Rightarrow> string option)" where
  "place_row cols r =
     (if ''ItemName'' \<in> set cols then (\<lambda>c. if c \<in> set cols then r c else None) else r)"




definition mix_cx :: "string option frame" where
  "mix_cx = DataFrame [''ItemID'', ''ItemName''] None [[Some ''12'', Some ''Burger'']]"


definition master_other :: "string option frame" where
  "master_other = DataFrame [''Unnamed: 0'', ''Item ID'', ''Item Name'', ''Default Revenue Category'', ''Item Group''] None
     [[Some ''Drinks'', Some ''99'', Some ''Cola'', Some ''Bev'', Some ''Soft'']]"



definition mix_noname :: "string option frame" where
  "mix_noname = DataFrame [''ItemID'', ''ItemsSold''] None [[Some ''12'', Some ''3'']]"

text \<open>
  Notions for the aggregator: the time key of a time slice, the rows that are grouped
  (day names as categories on the day-of-week slice, off-season rows dropped on the
  ski-season slice), the metric cells that contribute to the group of a result row,
  the table the caller holds after the call, and the table that is grouped.
\<close>

definition time_key_of :: "string \<Rightarrow> string" where
  "time_key_of time_slice =
     (if time_slice = ''Week'' then ''WeekStart''
      else if time_slice = ''Day of Week'' then ''DayOfWeek''
      else if time_slice = ''Ski Season'' then ''SkiSeason''
      else ''Month'')"

definition grouped :: "string \<Rightarrow> cell frame \<Rightarrow> (string \<Rightarrow> cell) list" where
  "grouped time_slice q =
     (if time_slice = ''Day of Week''
      then map (\<lambda>r. r(''DayOfWeek'' := Categorical (r ''DayOfWeek''))) (rows q)
      else if time_slice = ''Ski Season'' then filter (\<lambda>r. r ''SkiSeason'' \<noteq> NaN) (rows q)
      else rows q)"

definition contributing ::
  "string list \<Rightarrow> string \<Rightarrow> (string \<Rightarrow> cell) list \<Rightarrow> (string \<Rightarrow> cell) \<Rightarrow> cell list" where
  "contributing cols metric rs r = map (\<lambda>x. x metric) (filter (\<lambda>x. map x cols = map r cols) rs)"

definition passed_back :: "string \<Rightarrow> cell frame \<Rightarrow> cell frame" where
  "passed_back time_slice q =
     (if time_slice = ''Day of Week''
      then assign ''DayOfWeek'' (\<lambda>r. Categorical (r ''DayOfWeek'')) q else q)"

definition grouped_frame :: "string \<Rightarrow> cell frame \<Rightarrow> cell frame" where
  "grouped_frame time_slice q =
     (if time_slice = ''Day of Week''
      then assign ''DayOfWeek'' (\<lambda>r. Categorical (r ''DayOfWeek'')) q
      else if time_slice = ''Ski Season'' then boolean_mask (\<lambda>r. r ''SkiSeason'' \<noteq> NaN) q
      else q)"

text \<open>
  The values of the comparison dimension that the Top-N ranking keeps: the texts of the
  first \<open>top_n\<close> values in descending order of their total.
\<close>

definition top_labels :: "(cell \<Rightarrow> string) \<Rightarrow> cell frame \<Rightarrow> string \<Rightarrow> string \<Rightarrow> nat \<Rightarrow> string set" where
  "top_labels as_str agg c metric top_n =
     set (map (\<lambda>r. as_str (r c))
            (take top_n (sort_by (\<lambda>a b. cell_le (b metric) (a metric))
                           (rows (groupby_sum False 0 [c] metric agg)))))"

text \<open>
  Example tables of the dashboard. \<open>text_str\<close> is \<^verbatim>\<open>astype(str)\<close> on the cells of a
  text column (a missing cell gives the text \<^verbatim>\<open>nan\<close>); it is only applied to such
  columns.
\<close>

definition text_str :: "cell \<Rightarrow> string" where
  "text_str v = (case v of Str s \<Rightarrow> s | _ \<Rightarrow> ''nan'')"

definition df_ex :: "cell frame" where
  "df_ex = DataFrame [''BusinessDate'', ''Month'', ''DayOfWeek'', ''SkiSeason'', ''ItemName'', ''NetRevenue''] NaN
     [[Ts (Timestamp 2024 1 1), Ts (Timestamp 2024 1 1), Str ''Monday'', Str ''2023-2024'', Str ''Burger'', Num 10],
      [Ts (Timestamp 2024 1 7), Ts (Timestamp 2024 1 1), Str ''Sunday'', Str ''2023-2024'', Str ''Fries'', NaN],
      [Ts (Timestamp 2024 1 8), Ts (Timestamp 2024 1 1), Str ''Monday'', Str ''2023-2024'', Str ''Burger'', Num 5],
      [Ts (Timestamp 2024 6 7), Ts (Timestamp 2024 6 1), Str ''Friday'', NaN, Str ''Soda'', Num 2],
      [Ts (Timestamp 2024 6 14), Ts (Timestamp 2024 6 1), Str ''Friday'', NaN, Str ''Cola'', Num 1]]"

definition df_null :: "cell frame" where
  "df_null = DataFrame [''Month'', ''ItemName'', ''NetRevenue''] NaN
     [[Ts (Timestamp 2024 1 1), Str ''Burger'', NaN],
      [Ts (Timestamp 2024 1 1), Str ''Fries'', Num 5],
      [Ts (Timestamp 2024 1 1), Str ''Burger'', NaN]]"

definition df_none :: "cell frame" where
  "df_none = DataFrame [''Month'', ''ItemName'', ''NetRevenue''] NaN []"

definition agg5 :: "cell frame" where
  "agg5 = DataFrame [''Month'', ''ItemName'', ''NetRevenue''] NaN
     [[Ts (Timestamp 2024 1 1), Str ''Burger'', Num 15],
      [Ts (Timestamp 2024 1 1), Str ''Fries'', NaN],
      [Ts (Timestamp 2024 1 1), Str ''Wings'', Num 7],
      [Ts (Timestamp 2024 6 1), Str ''Burger'', Num 4],
      [Ts (Timestamp 2024 6 1), Str ''Cola'', Num 1],
      [Ts (Timestamp 2024 6 1), Str ''Soda'', Num 2]]"

section \<open>Properties of the ski-season label\<close>

lemma digit_char_is_digit: "n < 10 \<Longrightarrow> is_digit (digit_char n)"
  unfolding is_digit_def digit_char_def
  by (auto simp: less_Suc_eq numeral_eq_Suc nth_Cons')

lemma digit_val_digit_char: "n < 10 \<Longrightarrow> digit_val (digit_char n) = n"
  unfolding digit_val_def digit_char_def
  by (auto simp: less_Suc_eq numeral_eq_Suc nth_Cons')

lemma digits_all_digit: "\<forall>c \<in> set (digits n). is_digit c"
proof (induction n rule: digits.induct)
  case (1 n)
  show ?case
  proof (cases "n < 10")
    case True
    then show ?thesis by (simp add: digits.simps [of n] digit_char_is_digit)
  next
    case False
    with 1 show ?thesis by (simp add: digits.simps [of n] digit_char_is_digit)
  qed
qed

lemma digits_nonempty: "digits n \<noteq> []"
  by (simp add: digits.simps [of n])

lemma digits_val_digits: "digits_val (digits n) = n"
proof (induction n rule: digits.induct)
  case (1 n)
  show ?case
  proof (cases "n < 10")
    case True
    then show ?thesis by (simp add: digits.simps [of n] digits_val_def digit_val_digit_char)
  next
    case False
    with 1 have "digits_val (digits (n div 10)) = n div 10" by simp
    with False show ?thesis
      by (simp add: digits.simps [of n] digits_val_def digit_val_digit_char)
  qed
qed

lemma takeWhile_digits: "takeWhile is_digit (digits n @ CHR ''-'' # r) = digits n"
proof -
  have "\<not> is_digit CHR ''-''" by (simp add: is_digit_def)
  then show ?thesis using digits_all_digit [of n]
    by (simp add: takeWhile_append2)
qed

lemma hd_digits: "hd (digits n) \<noteq> CHR ''-''"
proof -
  have "hd (digits n) \<in> set (digits n)" using digits_nonempty by simp
  then have "is_digit (hd (digits n))" using digits_all_digit by blast
  then show ?thesis by (auto simp: is_digit_def)
qed

lemma season_start_name: "season_start (season_name Y) = Y"
proof (cases "Y < 0")
  case True
  then show ?thesis
    by (simp add: season_start_def season_name_def py_str_def takeWhile_digits digits_val_digits)
next
  case False
  have "hd (digits (nat Y) @ CHR ''-'' # r) \<noteq> CHR ''-''" for r
    using hd_digits [of "nat Y"] digits_nonempty [of "nat Y"] by (simp add: hd_append)
  with False show ?thesis
    by (simp add: season_start_def season_name_def py_str_def takeWhile_digits digits_val_digits)
qed

lemma season_name_inj: "season_name Y = season_name Z \<longleftrightarrow> Y = Z"
  by (metis season_start_name)

lemma label_in_season:
  "ski_season_label d = Some (season_name Y) \<longleftrightarrow> in_season Y d \<and> \<not> after_midnight_apr_20 d"
  unfolding ski_season_label_def in_season_def after_midnight_apr_20_def date_def Let_def
  by (auto simp: season_name_inj ts_le_def Timestamp_def split: option.splits if_splits)

lemma label_Some_name: "ski_season_label d = Some s \<Longrightarrow> \<exists>Y. s = season_name Y"
  unfolding ski_season_label_def Let_def
  by (auto split: option.splits if_splits)

lemma label_off_season:
  "ski_season_label d = None \<longleftrightarrow> \<not> (\<exists>Y. in_season Y d \<and> \<not> after_midnight_apr_20 d)"
proof
  assume "ski_season_label d = None"
  then show "\<not> (\<exists>Y. in_season Y d \<and> \<not> after_midnight_apr_20 d)"
    using label_in_season [of d] by auto
next
  assume a: "\<not> (\<exists>Y. in_season Y d \<and> \<not> after_midnight_apr_20 d)"
  show "ski_season_label d = None"
  proof (cases "ski_season_label d")
    case None
    then show ?thesis .
  next
    case (Some s)
    then obtain Y where "s = season_name Y" using label_Some_name by blast
    with Some a label_in_season [of d Y] show ?thesis by simp
  qed
qed

lemma label_boundaries:
  "ski_season_label (Timestamp Y 11 9) = None \<and>
   ski_season_label (Timestamp Y 11 10) = Some (season_name Y) \<and>
   ski_season_label (Timestamp Y 4 20) = Some (season_name (Y - 1)) \<and>
   ski_season_label (Timestamp Y 4 21) = None"
  by (simp add: ski_season_label_def Timestamp_def ts_le_def)

lemma label_noon_apr_20:
  "in_season 2023 noon_apr_20_2024 \<and> ski_season_label noon_apr_20_2024 = None
   \<and> ski_season_label (Timestamp 2024 4 20) = Some ''2023-2024''"
proof -
  have n: "season_name (2024 - 1) = ''2023-2024''"
    by (simp add: season_name_def py_str_def digits.simps digit_char_def)
  have "in_season 2023 noon_apr_20_2024"
    by (simp add: in_season_def date_def noon_apr_20_2024_def)
  moreover have "ski_season_label noon_apr_20_2024 = None"
    by (simp add: ski_season_label_def noon_apr_20_2024_def Timestamp_def ts_le_def)
  ultimately show ?thesis using label_boundaries [of 2024] n by simp
qed

text \<open>
  C1. The label follows the closed interval of dates except on its last day. For every
  business date \<open>d\<close> and year \<open>Y\<close> the label of \<open>d\<close> is the string "Y-(Y+1)" exactly when
  \<open>d\<close> lies in the interval from Nov 10 of \<open>Y\<close> to Apr 20 of \<open>Y + 1\<close> and is not a time
  after midnight on Apr 20; it is absent in every other case. So the four boundary
  dates get the labels of the specification when they are midnight dates (Nov 9 none,
  Nov 10 "Y-(Y+1)", Apr 20 "(Y-1)-Y", Apr 21 none), while 2024-04-20 12:00:00, which
  lies in the interval of season 2023-2024, gets no label: line 44 compares the
  timestamp with midnight of Apr 20, although line 38 admits the whole day.
\<close>

theorem ski_season_label_misses_apr_20_after_midnight:
  "(ski_season_label d = Some (season_name Y) \<longleftrightarrow> in_season Y d \<and> \<not> after_midnight_apr_20 d) \<and>
   (ski_season_label d = None \<longleftrightarrow> \<not> (\<exists>Z. in_season Z d \<and> \<not> after_midnight_apr_20 d)) \<and>
   ski_season_label (Timestamp Y 11 9) = None \<and>
   ski_season_label (Timestamp Y 11 10) = Some (season_name Y) \<and>
   ski_season_label (Timestamp Y 4 20) = Some (season_name (Y - 1)) \<and>
   ski_season_label (Timestamp Y 4 21) = None \<and>
   in_season 2023 noon_apr_20_2024 \<and>
   ski_season_label noon_apr_20_2024 = None \<and>
   ski_season_label (Timestamp 2024 4 20) = Some ''2023-2024''"
  using label_in_season [of d Y] label_off_season [of d] label_boundaries [of Y] label_noon_apr_20
  by blast
section \<open>Properties of the enrichment script\<close>

subsection \<open>Frame operations\<close>

lemma columns_set_columns [simp]: "columns (set_columns new f) = new"
  by (simp add: set_columns_def)

lemma rows_set_columns [simp]: "rows (set_columns new f) = map (relabel new (columns f)) (rows f)"
  by (simp add: set_columns_def)

lemma columns_rename [simp]:
  "columns (rename m f) = map (\<lambda>c. case map_of m c of None \<Rightarrow> c | Some n \<Rightarrow> n) (columns f)"
  by (simp add: rename_def)

lemma length_rows_rename [simp]: "length (rows (rename m f)) = length (rows f)"
  by (simp add: rename_def)

lemma columns_assign [simp]:
  "columns (assign c g f) = (if c \<in> set (columns f) then columns f else columns f @ [c])"
  by (simp add: assign_def)

lemma rows_assign [simp]: "rows (assign c g f) = map (\<lambda>r. r(c := g r)) (rows f)"
  by (simp add: assign_def)

lemma columns_select [simp]: "columns (select cs f) = cs"
  by (simp add: select_def)

lemma rows_select [simp]:
  "rows (select cs f) = map (\<lambda>r c. if c \<in> set cs then r c else None) (rows f)"
  by (simp add: select_def)

lemma columns_drop_column [simp]: "columns (drop_column c f) = filter (\<lambda>x. x \<noteq> c) (columns f)"
  by (simp add: drop_column_def)

lemma rows_drop_column [simp]: "rows (drop_column c f) = map (\<lambda>r. r(c := None)) (rows f)"
  by (simp add: drop_column_def)

lemma columns_keep_needed [simp]:
  "columns (keep_needed f) = filter (\<lambda>c. c \<in> set (columns f)) needed"
  by (simp add: keep_needed_def)

subsection \<open>Loading the two tables\<close>

lemma clean_master_keys_Inr:
  assumes "clean_master_keys f = Inr ms"
  shows "columns ms = columns f" and "''ItemID'' \<in> set (columns f)"
proof -
  from assms have k: "''ItemID'' \<in> set (columns f)"
    by (auto simp: clean_master_keys_def split: if_splits)
  from assms k have "ms = assign ''ItemID'' (\<lambda>r. Some (strip (astype_str (r ''ItemID''))))
      (f\<lparr>rows := filter (\<lambda>r. r ''ItemID'' \<noteq> None) (rows f)\<rparr>)"
    by (simp add: clean_master_keys_def)
  with k show "columns ms = columns f" by simp
  from k show "''ItemID'' \<in> set (columns f)" .
qed

lemma load_master_Inr:
  assumes "load_master master = Inr ms"
  shows "''ItemID'' \<in> set (columns ms)" and "set (columns ms) \<subseteq> set needed"
proof -
  let ?f = "keep_needed (ffill_product_class (standardize_columns master))"
  from assms have c: "clean_master_keys ?f = Inr ms"
    by (simp add: load_master_def Let_def split: if_splits)
  from clean_master_keys_Inr [OF c] have e: "columns ms = columns ?f" and k: "''ItemID'' \<in> set (columns ?f)"
    by simp_all
  from e k show "''ItemID'' \<in> set (columns ms)" by simp
  from e show "set (columns ms) \<subseteq> set needed" by auto
qed


lemma load_mix_Inr:
  assumes "load_mix mix = Inr m"
  shows "''ItemID'' \<in> set (columns m)" and "length (rows m) = length (rows mix)"
  using assms unfolding load_mix_def Let_def
  by (auto split: if_splits)














subsection \<open>The merge, row by row\<close>

lemma map_of_zip_fixed:
  assumes "\<And>c. g c = k \<longleftrightarrow> c = k"
  shows "map_of (zip (map g cs) cs) k = (if k \<in> set cs then Some k else None)"
proof (induction cs)
  case Nil
  show ?case by simp
next
  case (Cons a cs)
  have "k = g a \<longleftrightarrow> k = a" using assms [of a] by auto
  with Cons show ?case by simp
qed

lemma relabel_fixed:
  assumes "\<And>c. g c = k \<longleftrightarrow> c = k"
  shows "relabel (map g cs) cs r k = (if k \<in> set cs then r k else None)"
  by (simp add: relabel_def map_of_zip_fixed [of g k cs, OF assms])

lemma relabel_None [simp]: "relabel new old (\<lambda>c. None) = (\<lambda>c. None)"
  by (auto simp: relabel_def split: option.splits)

lemma suffixed_fixed:
  assumes "k \<notin> set ov" and "k \<noteq> []" and "last k \<noteq> last sfx" and "sfx \<noteq> []"
  shows "suffixed ov sfx c = k \<longleftrightarrow> c = k"
proof
  assume a: "suffixed ov sfx c = k"
  show "c = k"
  proof (cases "c \<in> set ov")
    case True
    with a have "c @ sfx = k" by (simp add: suffixed_def)
    then have "last k = last sfx" using assms(4) by auto
    with assms(3) show ?thesis by simp
  next
    case False
    with a show ?thesis by (simp add: suffixed_def)
  qed
next
  assume "c = k"
  with assms(1) show "suffixed ov sfx c = k" by (simp add: suffixed_def)
qed

lemma set_suffixed_fixed:
  assumes "k \<notin> set ov" and "k \<noteq> []" and "last k \<noteq> last sfx" and "sfx \<noteq> []"
  shows "k \<in> set (map (suffixed ov sfx) cs) \<longleftrightarrow> k \<in> set cs"
proof
  assume "k \<in> set (map (suffixed ov sfx) cs)"
  then obtain c where c: "c \<in> set cs" "suffixed ov sfx c = k" by auto
  from c(2) have "c = k" by (simp only: suffixed_fixed [OF assms])
  with c(1) show "k \<in> set cs" by simp
next
  assume a: "k \<in> set cs"
  have "suffixed ov sfx k = k" by (simp only: suffixed_fixed [OF assms])
  with a have "k \<in> suffixed ov sfx ` set cs" by (rule_tac x = k in image_eqI) simp_all
  then show "k \<in> set (map (suffixed ov sfx) cs)" by simp
qed

lemma rows_merge_left:
  assumes kl: "key \<in> set (columns left)" and kr: "key \<in> set (columns right)"
    and k0: "key \<noteq> []" and kx: "last key \<noteq> CHR ''x''" and ky: "last key \<noteq> CHR ''y''"
  shows "rows (merge_left key left right) =
           concat (map (\<lambda>l. map (merge_row key (columns left) (columns right) l)
                              (candidates key (rows right) l)) (rows left))"
proof -
  define ov where "ov = filter (\<lambda>c. c \<noteq> key \<and> c \<in> set (columns right)) (columns left)"
  define LC where "LC = map (suffixed ov ''_x'') (columns left)"
  define RC where "RC = map (suffixed ov ''_y'') (columns right)"
  define rl where "rl = relabel LC (columns left)"
  define rr where "rr = relabel RC (columns right)"
  define J where "J = join_rows LC (filter (\<lambda>c. c \<noteq> key) RC)"
  have nov: "key \<notin> set ov" by (simp add: ov_def)
  have l_key: "rl l key = l key" for l
    unfolding rl_def LC_def
    using relabel_fixed [of "suffixed ov ''_x''" key "columns left" l]
      suffixed_fixed [of key ov "''_x''"] nov k0 kx kl by simp
  have r_key: "rr e key = e key" for e
    unfolding rr_def RC_def
    using relabel_fixed [of "suffixed ov ''_y''" key "columns right" e]
      suffixed_fixed [of key ov "''_y''"] nov k0 ky kr by simp
  have block: "(case filter (\<lambda>m. m key = rl l key) (map rr es) of
                  [] \<Rightarrow> [J (rl l) (\<lambda>c. None)] | ms \<Rightarrow> map (J (rl l)) ms)
               = map (\<lambda>e. J (rl l) (rr e)) (candidates key es l)" for l es
  proof -
    have f: "filter (\<lambda>m. m key = rl l key) (map rr es) = map rr (filter (\<lambda>e. e key = l key) es)"
      by (simp add: filter_map o_def l_key r_key)
    show ?thesis
    proof (cases "filter (\<lambda>e. e key = l key) es")
      case Nil
      have "rr (\<lambda>c. None) = (\<lambda>c. None)" by (simp add: rr_def)
      with Nil show ?thesis by (simp add: f candidates_def)
    next
      case (Cons a as)
      then show ?thesis by (simp add: f candidates_def)
    qed
  qed
  have "rows (merge_left key left right) =
          concat (map (\<lambda>l'. case filter (\<lambda>m. m key = l' key) (map rr (rows right)) of
                         [] \<Rightarrow> [J l' (\<lambda>c. None)] | ms \<Rightarrow> map (J l') ms) (map rl (rows left)))"
    unfolding merge_left_def Let_def rows_set_columns columns_set_columns
      ov_def LC_def RC_def rl_def rr_def J_def
    by simp
  also have "\<dots> = concat (map (\<lambda>l. map (\<lambda>e. J (rl l) (rr e)) (candidates key (rows right) l)) (rows left))"
    by (simp add: o_def block)
  also have "(\<lambda>l e. J (rl l) (rr e)) = merge_row key (columns left) (columns right)"
    by (intro ext) (simp add: merge_row_def Let_def J_def rl_def rr_def LC_def RC_def ov_def)
  finally show ?thesis .
qed

lemma columns_merge_left:
  "columns (merge_left key left right) =
     (let ov = filter (\<lambda>c. c \<noteq> key \<and> c \<in> set (columns right)) (columns left)
      in map (suffixed ov ''_x'') (columns left)
         @ filter (\<lambda>c. c \<noteq> key) (map (suffixed ov ''_y'') (columns right)))"
  by (simp add: merge_left_def Let_def)

lemma merge_row_left:
  assumes "n \<in> set lc" and "n = key \<or> n \<notin> set rc" and "n \<noteq> []" and "last n \<noteq> CHR ''x''"
  shows "merge_row key lc rc l e n = l n"
proof -
  define ov where "ov = filter (\<lambda>c. c \<noteq> key \<and> c \<in> set rc) lc"
  have nov: "n \<notin> set ov" using assms(2) by (auto simp: ov_def)
  have fx: "suffixed ov ''_x'' c = n \<longleftrightarrow> c = n" for c
    using suffixed_fixed [of n ov "''_x''" c] nov assms(3,4) by simp
  have inL: "n \<in> set (map (suffixed ov ''_x'') lc)"
    using set_suffixed_fixed [of n ov "''_x''" lc] nov assms(1,3,4) by simp
  have "relabel (map (suffixed ov ''_x'') lc) lc l n = l n"
    using relabel_fixed [of "suffixed ov ''_x''" n lc l, OF fx] assms(1) by simp
  with inL show ?thesis
    unfolding merge_row_def Let_def ov_def [symmetric] join_rows_def by simp
qed

lemma merge_row_right:
  assumes "n \<notin> set lc" and "n \<in> set rc" and "n \<noteq> key" and "n \<noteq> []"
    and "last n \<noteq> CHR ''x''" and "last n \<noteq> CHR ''y''"
  shows "merge_row key lc rc l e n = e n"
proof -
  define ov where "ov = filter (\<lambda>c. c \<noteq> key \<and> c \<in> set rc) lc"
  have nov: "n \<notin> set ov" using assms(1) by (auto simp: ov_def)
  have fy: "suffixed ov ''_y'' c = n \<longleftrightarrow> c = n" for c
    using suffixed_fixed [of n ov "''_y''" c] nov assms(4,6) by simp
  have notL: "n \<notin> set (map (suffixed ov ''_x'') lc)"
    using set_suffixed_fixed [of n ov "''_x''" lc] nov assms(1,4,5) by simp
  have inR: "n \<in> set (map (suffixed ov ''_y'') rc)"
    using set_suffixed_fixed [of n ov "''_y''" rc] nov assms(2,4,6) by simp
  have "relabel (map (suffixed ov ''_y'') rc) rc e n = e n"
    using relabel_fixed [of "suffixed ov ''_y''" n rc e, OF fy] assms(2) by simp
  with notL inR assms(3) show ?thesis
    unfolding merge_row_def Let_def ov_def [symmetric] join_rows_def by simp
qed

lemma merged_column_left:
  assumes "n \<in> set (columns left)" and "n = key \<or> n \<notin> set (columns right)"
    and "n \<noteq> []" and "last n \<noteq> CHR ''x''"
  shows "n \<in> set (columns (merge_left key left right))"
proof -
  define ov where "ov = filter (\<lambda>c. c \<noteq> key \<and> c \<in> set (columns right)) (columns left)"
  have nov: "n \<notin> set ov" using assms(2) by (auto simp: ov_def)
  have "n \<in> set (map (suffixed ov ''_x'') (columns left))"
    using set_suffixed_fixed [of n ov "''_x''" "columns left"] nov assms(1,3,4) by simp
  then show ?thesis
    unfolding columns_merge_left Let_def ov_def [symmetric] by simp
qed

lemma merged_column_right:
  assumes "n \<notin> set (columns left)" and "n \<in> set (columns right)" and "n \<noteq> key" and "n \<noteq> []"
    and "last n \<noteq> CHR ''y''"
  shows "n \<in> set (columns (merge_left key left right))"
proof -
  define ov where "ov = filter (\<lambda>c. c \<noteq> key \<and> c \<in> set (columns right)) (columns left)"
  have nov: "n \<notin> set ov" using assms(1) by (auto simp: ov_def)
  have "n \<in> set (map (suffixed ov ''_y'') (columns right))"
    using set_suffixed_fixed [of n ov "''_y''" "columns right"] nov assms(2,4,5) by simp
  with assms(3) show ?thesis
    unfolding columns_merge_left Let_def ov_def [symmetric] by simp
qed

subsection \<open>Name resolution and column placement\<close>

lemma rows_resolve_names: "rows (resolve_names f) = map (resolve_row (columns f)) (rows f)"
proof (cases "''Item Name'' \<in> set (columns f)")
  case True
  then show ?thesis by (simp add: resolve_names_def resolve_row_def)
next
  case False
  then have "resolve_row (columns f) = (\<lambda>r. r)" by (intro ext) (simp add: resolve_row_def)
  with False show ?thesis by (simp add: resolve_names_def)
qed

lemma resolve_names_keeps:
  assumes "n \<in> set (columns f)" and "n \<noteq> ''Item Name''"
  shows "n \<in> set (columns (resolve_names f))"
  using assms by (simp add: resolve_names_def)

lemma resolve_names_ItemName:
  assumes "''Item Name'' \<in> set (columns f)"
  shows "''ItemName'' \<in> set (columns (resolve_names f))"
  using assms by (simp add: resolve_names_def)

lemma set_fold_remove1_upper: "set (fold remove1 ns cs) \<subseteq> set cs"
proof (induction ns arbitrary: cs)
  case Nil
  show ?case by simp
next
  case (Cons a ns)
  have "set (fold remove1 ns (remove1 a cs)) \<subseteq> set (remove1 a cs)" by (rule Cons.IH)
  also have "\<dots> \<subseteq> set cs" by (rule set_remove1_subset)
  finally show ?case by simp
qed

lemma set_fold_remove1_lower: "set cs \<subseteq> set (fold remove1 ns cs) \<union> set ns"
proof (induction ns arbitrary: cs)
  case Nil
  show ?case by simp
next
  case (Cons a ns)
  have "set cs \<subseteq> set (remove1 a cs) \<union> {a}"
    by (induction cs) auto
  also have "set (remove1 a cs) \<subseteq> set (fold remove1 ns (remove1 a cs)) \<union> set ns" by (rule Cons.IH)
  finally show ?case by auto
qed

lemma set_columns_place_columns: "set (columns (place_columns f)) = set (columns f)"
proof (cases "''ItemName'' \<in> set (columns f)")
  case False
  then show ?thesis by (simp add: place_columns_def Let_def)
next
  case True
  define ns where "ns = filter (\<lambda>c. c \<in> set (columns f)) [''Product Class'', ''Revenue Category'', ''Item Group'']"
  define cs where "cs = fold remove1 ns (columns f)"
  define i where "i = length (takeWhile (\<lambda>c. c \<noteq> ''ItemName'') cs) + 1"
  have c: "columns (place_columns f) = take i cs @ ns @ drop i cs"
    using True unfolding place_columns_def Let_def ns_def [symmetric] cs_def [symmetric] i_def [symmetric]
    by simp
  have td: "set (take i cs) \<union> set (drop i cs) = set cs"
    by (metis append_take_drop_id set_append)
  have "set (take i cs @ ns @ drop i cs) = (set (take i cs) \<union> set (drop i cs)) \<union> set ns" by auto
  also have "\<dots> = set cs \<union> set ns" by (simp only: td)
  also have "\<dots> = set (columns f)"
  proof
    have "set ns \<subseteq> set (columns f)" by (auto simp: ns_def)
    with set_fold_remove1_upper [of ns "columns f"] show "set cs \<union> set ns \<subseteq> set (columns f)"
      by (simp add: cs_def)
    from set_fold_remove1_lower [of "columns f" ns] show "set (columns f) \<subseteq> set cs \<union> set ns"
      by (simp add: cs_def)
  qed
  finally show ?thesis by (simp add: c)
qed

lemma rows_place_columns: "rows (place_columns f) = map (place_row (columns f)) (rows f)"
proof (cases "''ItemName'' \<in> set (columns f)")
  case False
  then have "place_row (columns f) = (\<lambda>r. r)" by (intro ext) (simp add: place_row_def)
  with False show ?thesis by (simp add: place_columns_def Let_def)
next
  case True
  from True have "rows (place_columns f) =
      map (\<lambda>r c. if c \<in> set (columns (place_columns f)) then r c else None) (rows f)"
    by (simp add: place_columns_def Let_def)
  with True show ?thesis by (simp add: set_columns_place_columns place_row_def)
qed

lemma place_row_cell: "c \<in> set cols \<Longrightarrow> place_row cols r c = r c"
  by (simp add: place_row_def)

subsection \<open>The rows that main writes\<close>

lemma candidates_left_join:
  "concat (map (\<lambda>l. map (G l) (candidates ''ItemID'' es l)) ls)
     = map (\<lambda>(l, me). G l (entry_or_blank me)) (left_join ls es)"
proof (induction ls)
  case Nil
  show ?case by (simp add: left_join_def)
next
  case (Cons l ls)
  have "map (G l) (candidates ''ItemID'' es l)
          = map (\<lambda>(l, me). G l (entry_or_blank me))
              (case matches es l of [] \<Rightarrow> [(l, None)] | es \<Rightarrow> map (\<lambda>e. (l, Some e)) es)"
    by (cases "matches es l")
       (simp_all add: candidates_def matches_def entry_or_blank_def o_def)
  with Cons show ?case by (simp add: left_join_def)
qed

lemma main_rows:
  assumes lm: "load_mix mix = Inr m" and ls: "load_master master = Inr ms"
  shows "\<exists>out F. main mix master = Inr (diagnostics m out)
           \<and> rows out = map (\<lambda>(l, me). F l (entry_or_blank me)) (left_join (rows m) (rows ms))
           \<and> (\<forall>l e. F l e ''ItemID'' = l ''ItemID'')
           \<and> (''Item Name'' \<in> set (columns ms) \<longrightarrow> ''Item Name'' \<notin> set (columns m) \<longrightarrow>
                ''ItemName'' \<in> set (columns out))
           \<and> (''Item Name'' \<in> set (columns ms) \<longrightarrow> ''Item Name'' \<notin> set (columns m) \<longrightarrow>
                ''ItemName'' \<in> set (columns m) \<longrightarrow>
                (\<forall>l e. F l e ''ItemName''
                         = (if e ''Item Name'' \<noteq> None then e ''Item Name'' else l ''ItemName'')))"
proof -
  define merged where "merged = merge_left ''ItemID'' m ms"
  define f2 where "f2 = resolve_names merged"
  define out where "out = place_columns f2"
  define F where "F = (\<lambda>l e. place_row (columns f2)
                          (resolve_row (columns merged) (merge_row ''ItemID'' (columns m) (columns ms) l e)))"
  have km: "''ItemID'' \<in> set (columns m)" using load_mix_Inr(1) [OF lm] .
  have ks: "''ItemID'' \<in> set (columns ms)" using load_master_Inr(1) [OF ls] .
  have sub: "set (columns ms) \<subseteq> set needed" using load_master_Inr(2) [OF ls] .
  have nn: "''ItemName'' \<notin> set (columns ms)"
  proof -
    have "''ItemName'' \<notin> set needed" by (simp add: needed_def)
    with sub show ?thesis by blast
  qed
  have main: "main mix master = Inr (diagnostics m out)"
    by (simp add: main_def lm ls out_def f2_def merged_def)
  have rm: "rows merged = concat (map (\<lambda>l. map (merge_row ''ItemID'' (columns m) (columns ms) l)
                                       (candidates ''ItemID'' (rows ms) l)) (rows m))"
    unfolding merged_def by (rule rows_merge_left [OF km ks]) simp_all
  have "rows out = map (place_row (columns f2)) (map (resolve_row (columns merged)) (rows merged))"
    by (simp only: out_def f2_def rows_place_columns rows_resolve_names)
  also have "\<dots> = concat (map (\<lambda>l. map (F l) (candidates ''ItemID'' (rows ms) l)) (rows m))"
    by (simp add: rm map_concat o_def F_def)
  also have "\<dots> = map (\<lambda>(l, me). F l (entry_or_blank me)) (left_join (rows m) (rows ms))"
    by (rule candidates_left_join)
  finally have ro: "rows out = map (\<lambda>(l, me). F l (entry_or_blank me)) (left_join (rows m) (rows ms))" .
  have id_merged: "''ItemID'' \<in> set (columns merged)"
    unfolding merged_def by (rule merged_column_left [OF km]) simp_all
  have id_f2: "''ItemID'' \<in> set (columns f2)"
    unfolding f2_def by (rule resolve_names_keeps [OF id_merged]) simp
  have Fid: "F l e ''ItemID'' = l ''ItemID''" for l e
  proof -
    have "merge_row ''ItemID'' (columns m) (columns ms) l e ''ItemID'' = l ''ItemID''"
      by (rule merge_row_left [OF km]) simp_all
    then have "resolve_row (columns merged) (merge_row ''ItemID'' (columns m) (columns ms) l e) ''ItemID''
                 = l ''ItemID''"
      by (simp add: resolve_row_def)
    with id_f2 show ?thesis by (simp add: F_def place_row_cell)
  qed
  have name_out: "''ItemName'' \<in> set (columns out)"
    if h1: "''Item Name'' \<in> set (columns ms)" and h2: "''Item Name'' \<notin> set (columns m)"
  proof -
    have "''Item Name'' \<in> set (columns merged)"
      unfolding merged_def by (rule merged_column_right [OF h2 h1]) simp_all
    then have "''ItemName'' \<in> set (columns f2)"
      unfolding f2_def by (rule resolve_names_ItemName)
    then show ?thesis by (simp add: out_def set_columns_place_columns)
  qed
  have Fname: "F l e ''ItemName'' = (if e ''Item Name'' \<noteq> None then e ''Item Name'' else l ''ItemName'')"
    if h1: "''Item Name'' \<in> set (columns ms)" and h2: "''Item Name'' \<notin> set (columns m)"
      and h3: "''ItemName'' \<in> set (columns m)" for l e
  proof -
    have in1: "''Item Name'' \<in> set (columns merged)"
      unfolding merged_def by (rule merged_column_right [OF h2 h1]) simp_all
    have in2: "''ItemName'' \<in> set (columns merged)"
      unfolding merged_def using nn by (intro merged_column_left [OF h3]) simp_all
    have in3: "''ItemName'' \<in> set (columns f2)"
      unfolding f2_def by (rule resolve_names_keeps [OF in2]) simp
    define j where "j = merge_row ''ItemID'' (columns m) (columns ms) l e"
    have j1: "j ''Item Name'' = e ''Item Name''"
      unfolding j_def by (rule merge_row_right [OF h2 h1]) simp_all
    have j2: "j ''ItemName'' = l ''ItemName''"
      unfolding j_def using nn by (intro merge_row_left [OF h3]) simp_all
    have "resolve_row (columns merged) j ''ItemName''
            = (if j ''Item Name'' \<noteq> None then j ''Item Name'' else j ''ItemName'')"
      using in1 in2 by (simp add: resolve_row_def)
    with in3 j1 j2 show ?thesis by (simp add: F_def place_row_cell j_def [symmetric])
  qed
  show ?thesis
    using main ro Fid name_out Fname by blast
qed

lemma main_pairs:
  assumes lm: "load_mix mix = Inr m" and ls: "load_master master = Inr ms"
    and h1: "''Item Name'' \<in> set (columns ms)" and h2: "''Item Name'' \<notin> set (columns m)"
    and h3: "''ItemName'' \<in> set (columns m)"
  shows "\<exists>out G. main mix master = Inr (diagnostics m out)
           \<and> ''ItemName'' \<in> set (columns out)
           \<and> rows out = map G (left_join (rows m) (rows ms))
           \<and> (\<forall>p. G p ''ItemID'' = fst p ''ItemID'' \<and> G p ''ItemName'' = resolved_name p)"
proof -
  from main_rows [OF lm ls] h1 h2 h3 obtain out F where
    a: "main mix master = Inr (diagnostics m out)"
    and b: "rows out = map (\<lambda>(l, me). F l (entry_or_blank me)) (left_join (rows m) (rows ms))"
    and c: "\<And>l e. F l e ''ItemID'' = l ''ItemID''"
    and d: "''ItemName'' \<in> set (columns out)"
    and e: "\<And>l e. F l e ''ItemName'' = (if e ''Item Name'' \<noteq> None then e ''Item Name'' else l ''ItemName'')"
    by blast
  define G where "G = (\<lambda>(l, me). F l (entry_or_blank me))"
  have "G p ''ItemID'' = fst p ''ItemID'' \<and> G p ''ItemName'' = resolved_name p" for p
    by (cases p) (simp add: G_def c e resolved_name_def entry_or_blank_def split: option.splits)
  with a b d show ?thesis unfolding G_def [symmetric] by blast
qed





subsection \<open>Claims about the enrichment script\<close>










text \<open>
  What the three numbers are, for all inputs: the number of transaction rows, the number
  of enriched rows whose final name is present, and the number of distinct identifiers
  among the enriched rows whose final name is missing.
\<close>

lemma diagnostics_final_names:
  assumes lm: "load_mix mix = Inr m" and ls: "load_master master = Inr ms"
  shows "\<exists>res. main mix master = Inr res
           \<and> total res = length (rows mix)
           \<and> matched res = (if ''ItemName'' \<in> set (columns (df_out res))
                             then length (filter (\<lambda>v. v \<noteq> None) (col ''ItemName'' (df_out res)))
                             else 0)
           \<and> unmatched res = (if ''ItemName'' \<in> set (columns (df_out res))
                               then card ((\<lambda>out. out ''ItemID'')
                                          ` {out \<in> set (rows (df_out res)). out ''ItemName'' = None} - {None})
                               else 0)
           \<and> (''Item Name'' \<in> set (columns ms) \<longrightarrow> ''Item Name'' \<notin> set (columns m) \<longrightarrow>
                ''ItemName'' \<in> set (columns m) \<longrightarrow>
                matched res = length (filter (\<lambda>p. resolved_name p \<noteq> None)
                                        (left_join (rows m) (rows ms)))
                \<and> unmatched res = card ((\<lambda>p. fst p ''ItemID'')
                                          ` {p \<in> set (left_join (rows m) (rows ms)). resolved_name p = None}
                                        - {None}))"
proof -
  from main_rows [OF lm ls] obtain out where a: "main mix master = Inr (diagnostics m out)"
    by blast
  define res where "res = diagnostics m out"
  have o: "df_out res = out" by (simp add: res_def diagnostics_def)
  have t: "total res = length (rows mix)"
    using load_mix_Inr(2) [OF lm] by (simp add: res_def diagnostics_def)
  have mt: "matched res = (if ''ItemName'' \<in> set (columns out)
                           then length (filter (\<lambda>v. v \<noteq> None) (col ''ItemName'' out)) else 0)"
    by (simp add: res_def diagnostics_def col_def filter_map o_def)
  have "set (filter (\<lambda>v. v \<noteq> None) (map (\<lambda>r. r ''ItemID'') (filter (\<lambda>r. r ''ItemName'' = None) (rows out))))
          = (\<lambda>out. out ''ItemID'') ` {r \<in> set (rows out). r ''ItemName'' = None} - {None}"
    by auto
  then have um: "unmatched res = (if ''ItemName'' \<in> set (columns out)
                   then card ((\<lambda>out. out ''ItemID'') ` {r \<in> set (rows out). r ''ItemName'' = None} - {None})
                   else 0)"
    by (simp add: res_def diagnostics_def length_remdups_card_conv)
  have inp: "matched res = length (filter (\<lambda>p. resolved_name p \<noteq> None) (left_join (rows m) (rows ms)))
           \<and> unmatched res = card ((\<lambda>p. fst p ''ItemID'')
                 ` {p \<in> set (left_join (rows m) (rows ms)). resolved_name p = None} - {None})"
    if h: "''Item Name'' \<in> set (columns ms)" "''Item Name'' \<notin> set (columns m)"
          "''ItemName'' \<in> set (columns m)"
  proof -
    from main_pairs [OF lm ls h] obtain out' G where
      a': "main mix master = Inr (diagnostics m out')"
      and c: "''ItemName'' \<in> set (columns out')"
      and b: "rows out' = map G (left_join (rows m) (rows ms))"
      and g: "\<And>p. G p ''ItemID'' = fst p ''ItemID'' \<and> G p ''ItemName'' = resolved_name p"
      by blast
    from a a' have "diagnostics m out = diagnostics m out'" by simp
    then have "df_out (diagnostics m out) = df_out (diagnostics m out')" by simp
    then have e: "out' = out" by (simp add: diagnostics_def)
    have m1: "length (filter (\<lambda>v. v \<noteq> None) (col ''ItemName'' out))
                = length (filter (\<lambda>p. resolved_name p \<noteq> None) (left_join (rows m) (rows ms)))"
      unfolding e [symmetric] by (simp add: col_def b filter_map o_def g)
    have g1: "G p ''ItemID'' = fst p ''ItemID''" and g2: "G p ''ItemName'' = resolved_name p" for p
      using g [of p] by simp_all
    have s1: "{r \<in> set (map G ps). r ''ItemName'' = None} = G ` {p \<in> set ps. resolved_name p = None}" for ps
      by (auto simp: g2)
    have m2: "(\<lambda>out. out ''ItemID'') ` {r \<in> set (rows out). r ''ItemName'' = None}
                = (\<lambda>p. fst p ''ItemID'') ` {p \<in> set (left_join (rows m) (rows ms)). resolved_name p = None}"
      unfolding e [symmetric] b s1 image_image g1 ..
    from c e mt um m1 m2 show ?thesis by simp
  qed
  have r: "main mix master = Inr res" using a by (simp add: res_def)
  show ?thesis
  proof (intro exI [of _ res] conjI impI)
    show "main mix master = Inr res" by (rule r)
    show "total res = length (rows mix)" by (rule t)
    show "matched res = (if ''ItemName'' \<in> set (columns (df_out res))
                             then length (filter (\<lambda>v. v \<noteq> None) (col ''ItemName'' (df_out res)))
                             else 0)"
      unfolding o by (rule mt)
    show "unmatched res = (if ''ItemName'' \<in> set (columns (df_out res))
                               then card ((\<lambda>out. out ''ItemID'')
                                          ` {out \<in> set (rows (df_out res)). out ''ItemName'' = None} - {None})
                               else 0)"
      unfolding o by (rule um)
  next
    assume h: "''Item Name'' \<in> set (columns ms)" "''Item Name'' \<notin> set (columns m)"
          "''ItemName'' \<in> set (columns m)"
    from inp [OF h] show "matched res = length (filter (\<lambda>p. resolved_name p \<noteq> None)
                                        (left_join (rows m) (rows ms)))"
      by (rule conjunct1)
    from inp [OF h] show "unmatched res = card ((\<lambda>p. fst p ''ItemID'')
                                          ` {p \<in> set (left_join (rows m) (rows ms)). resolved_name p = None}
                                        - {None})"
      by (rule conjunct2)
  qed
qed

text \<open>
  C9. The numbers printed as rows with a name after the merge and as identifiers without
  a matching name are not the match statistics when the transaction table has a name
  column of its own. Identifier 12 has no master entry (the master lists 99 only).
  With an ItemName column in the transaction table the row keeps its own name by the
  fallback of line 74 and the run reports 1 named row and 0 unmatched identifiers;
  without that column (line 76) the same identifier is reported as 0 named rows and
  1 unmatched identifier.
\<close>

theorem diagnostics_count_names_not_matches:
  "map_sum id (\<lambda>res. (total res, matched res, unmatched res)) (main mix_cx master_other) = Inr (1, 1, 0)
   \<and> map_sum id (\<lambda>res. (total res, matched res, unmatched res)) (main mix_noname master_other)
       = Inr (1, 0, 1)
   \<and> map (\<lambda>l. length (matches (rows (projr (load_master master_other))) l))
        (rows (projr (load_mix mix_cx))) = [0]
   \<and> col ''ItemID'' (projr (load_mix mix_cx)) = [Some ''12'']
   \<and> col ''ItemID'' (projr (load_mix mix_noname)) = [Some ''12'']
   \<and> col ''ItemID'' (projr (load_master master_other)) = [Some ''99'']
   \<and> map_sum id (\<lambda>res. col ''ItemName'' (df_out res)) (main mix_cx master_other) = Inr [Some ''Burger'']
   \<and> map_sum id (\<lambda>res. col ''ItemName'' (df_out res)) (main mix_noname master_other) = Inr [None]"
  by code_simp

section \<open>Properties of the dashboard\<close>

subsection \<open>Row selection and sorting\<close>

lemma columns_boolean_mask [simp]: "columns (boolean_mask p q) = columns q"
  by (simp add: boolean_mask_def)

lemma rows_boolean_mask [simp]: "rows (boolean_mask p q) = filter p (rows q)"
  by (simp add: boolean_mask_def)

lemma boolean_mask_all: "(\<And>r. r \<in> set (rows q) \<Longrightarrow> p r) \<Longrightarrow> boolean_mask p q = q"
  by (simp add: boolean_mask_def filter_id_conv)

lemma set_insert_by [simp]: "set (insert_by le x xs) = insert x (set xs)"
  by (induction xs) auto

lemma length_insert_by [simp]: "length (insert_by le x xs) = Suc (length xs)"
  by (induction xs) auto

lemma set_sort_by [simp]: "set (sort_by le xs) = set xs"
  by (induction xs) (simp_all add: sort_by_def)

lemma length_sort_by [simp]: "length (sort_by le xs) = length xs"
  by (induction xs) (simp_all add: sort_by_def)

lemma sort_by_Nil [simp]: "sort_by le [] = []"
  by (simp add: sort_by_def)

subsection \<open>Filtering\<close>

lemma column_filters_unselected:
  assumes "\<forall>f\<in>set filters. snd f = []"
  shows "column_filters filters q = Inr q"
  using assms by (induction filters q rule: column_filters.induct) simp_all

lemma filter_df_Inr: "filter_df df filters dr = Inr (df', q) \<Longrightarrow> df' = df"
  by (auto simp: filter_df_def split: sum.splits option.splits prod.splits)

text \<open>
  C7. When every column filter has an empty list of values and the date range is absent
  or has neither bound, \<open>filter_df\<close> succeeds and returns the table unchanged, so
  aggregating what it returns is aggregating the unfiltered table: the same grouped
  sums, for every time slice, comparison dimension and metric (and the same error where
  the aggregation of the unfiltered table fails).
\<close>

theorem no_filter_no_change:
  assumes "\<forall>f\<in>set filters. snd f = []"
    and "date_range = None \<or> date_range = Some (None, None)"
  shows "filter_df df filters date_range = Inr (df, df)
         \<and> (case filter_df df filters date_range of
               Inl e \<Rightarrow> Inl e
             | Inr (df', q) \<Rightarrow> aggregate observed q time_slice compare_by metric)
           = aggregate observed df time_slice compare_by metric"
proof -
  have "filter_df df filters date_range = Inr (df, df)"
    using assms(2) column_filters_unselected [OF assms(1), of df]
    by (auto simp: filter_df_def date_bound_def)
  then show ?thesis by simp
qed

theorem no_filter_no_change_witness:
  "filter_df df_ex [(''ItemName'', []), (''Item Group'', [])] (Some (None, None)) = Inr (df_ex, df_ex)
   \<and> filter_df df_ex [(''ItemName'', []), (''Item Group'', [])] None = Inr (df_ex, df_ex)
   \<and> map_sum id (\<lambda>(df, q). to_values q) (filter_df df_ex [(''ItemName'', [Str ''Soda''])] None)
       = Inr [[Ts (Timestamp 2024 6 7), Ts (Timestamp 2024 6 1), Str ''Friday'', NaN, Str ''Soda'', Num 2]]"
proof -
  have a: "\<forall>f\<in>set [(''ItemName'', []), (''Item Group'', [])]. snd f = ([] :: cell list)" by simp
  have b: "map_sum id (\<lambda>(df, q). to_values q) (filter_df df_ex [(''ItemName'', [Str ''Soda''])] None)
       = Inr [[Ts (Timestamp 2024 6 7), Ts (Timestamp 2024 6 1), Str ''Friday'', NaN, Str ''Soda'', Num 2]]"
    by code_simp
  from no_filter_no_change [OF a, of "Some (None, None)" df_ex]
    no_filter_no_change [OF a, of None df_ex] b
  show ?thesis by simp
qed

subsection \<open>Grouping and summing\<close>

lemma group_row_metric [simp]: "group_row cols metric k v metric = v"
  by (simp add: group_row_def)

lemma map_zip_lookup:
  assumes "distinct cols" and "length k = length cols"
  shows "map (\<lambda>c. case map_of (zip cols k) c of None \<Rightarrow> d | Some x \<Rightarrow> x) cols = k"
  using assms(2,1)
proof (induction k cols rule: list_induct2)
  case Nil
  show ?case by simp
next
  case (Cons v k c cs)
  have "map (\<lambda>a. case if a = c then Some v else map_of (zip cs k) a of None \<Rightarrow> d | Some x \<Rightarrow> x) cs
          = map (\<lambda>c. case map_of (zip cs k) c of None \<Rightarrow> d | Some x \<Rightarrow> x) cs"
    using Cons.prems by (intro map_cong) auto
  with Cons show ?case by simp
qed

lemma group_row_key:
  assumes "distinct cols" and "length k = length cols" and "metric \<notin> set cols"
  shows "map (group_row cols metric k v) cols = k"
proof -
  have "map (group_row cols metric k v) cols
          = map (\<lambda>c. case map_of (zip cols k) c of None \<Rightarrow> NaN | Some x \<Rightarrow> x) cols"
    using assms(3) by (intro map_cong) (auto simp: group_row_def)
  with map_zip_lookup [OF assms(1,2)] show ?thesis by simp
qed

lemma group_keys_length:
  assumes "cols \<noteq> []" and "k \<in> set (group_keys ac cols q)"
  shows "length k = length cols"
proof -
  define seen where "seen = remdups (map (\<lambda>r. map r cols) (rows q))"
  define others where "others = (if tl cols = [] then [[]] else remdups (map tl seen))"
  have s: "length x = length cols" if "x \<in> set seen" for x
    using that by (auto simp: seen_def)
  have o: "Suc (length x) = length cols" if "x \<in> set others" for x
  proof (cases "tl cols = []")
    case True
    with that assms(1) show ?thesis by (cases cols) (simp_all add: others_def)
  next
    case False
    with that obtain y where "y \<in> set seen" "x = tl y" by (auto simp: others_def)
    with s [of y] assms(1) show ?thesis by (cases cols) simp_all
  qed
  from assms(2) have "k \<in> set seen \<or> (\<exists>i x. x \<in> set others \<and> k = Cat i # x)"
    unfolding group_keys_def Let_def seen_def [symmetric] others_def [symmetric]
    by (auto split: if_splits)
  with s o show ?thesis by auto
qed

lemma group_keys_seen:
  "r \<in> set (rows q) \<Longrightarrow> map r cols \<in> set (group_keys ac cols q)"
  by (auto simp: group_keys_def Let_def)

lemma group_keys_empty:
  assumes "rows q = []" and "\<not> ac \<or> tl cols \<noteq> []"
  shows "group_keys ac cols q = []"
proof -
  have c: "concat (map (\<lambda>k. []) xs) = ([] :: cell list list)" for xs :: "nat list"
    by (induction xs) simp_all
  from assms show ?thesis by (auto simp: group_keys_def Let_def c)
qed

lemma numbers_Nil [simp]: "numbers [] = []"
  by (simp add: numbers_def)

lemma numbers_all_NaN: "\<forall>v\<in>set vs. v = NaN \<Longrightarrow> numbers vs = []"
  by (induction vs) (auto simp: numbers_def)

lemma rows_grouped_frame [simp]: "rows (grouped_frame ts q) = grouped ts q"
  by (simp add: grouped_frame_def grouped_def assign_def)

lemma columns_grouped_frame:
  "ts = ''Day of Week'' \<longrightarrow> ''DayOfWeek'' \<in> set (columns q) \<Longrightarrow> columns (grouped_frame ts q) = columns q"
  by (simp add: grouped_frame_def assign_def)

lemma aggregate_cases:
  "aggregate ob q ts cb m =
     (if ts = ''Day of Week'' \<and> ''DayOfWeek'' \<notin> set (columns q) then Inl (KeyError ''DayOfWeek'')
      else if ts = ''Ski Season'' \<and> ''SkiSeason'' \<notin> set (columns q) then Inl (KeyError ''SkiSeason'')
      else (case find (\<lambda>c. c \<notin> set (columns q)) (group_columns (time_key_of ts) cb @ [m]) of
              Some c \<Rightarrow> Inl (KeyError c)
            | None \<Rightarrow>
                if \<not> distinct (group_columns (time_key_of ts) cb @ [m])
                then Inl (ValueError ''cannot insert, already exists'')
                else Inr (passed_back ts q,
                          sort_values (group_columns (time_key_of ts) cb)
                            (groupby_sum (ts = ''Day of Week'' \<and> \<not> ob) 1
                               (group_columns (time_key_of ts) cb) m (grouped_frame ts q)),
                          time_key_of ts)))"
proof -
  consider (dow) "ts = ''Day of Week''" | (ski) "ts = ''Ski Season''" | (week) "ts = ''Week''"
    | (month) "ts = ''Month''"
    | (other) "ts \<noteq> ''Day of Week''" "ts \<noteq> ''Ski Season''" "ts \<noteq> ''Week''" "ts \<noteq> ''Month''"
    by blast
  then show ?thesis
  proof cases
    case dow
    then show ?thesis
      by (simp add: aggregate_def time_key_of_def passed_back_def grouped_frame_def Let_def assign_def
            cong: option.case_cong)
  next
    case ski
    then show ?thesis
      by (simp add: aggregate_def time_key_of_def passed_back_def grouped_frame_def Let_def
            cong: option.case_cong)
  next
    case week
    then show ?thesis
      by (simp add: aggregate_def time_key_of_def passed_back_def grouped_frame_def Let_def
            cong: option.case_cong)
  next
    case month
    then show ?thesis
      by (simp add: aggregate_def time_key_of_def passed_back_def grouped_frame_def Let_def
            cong: option.case_cong)
  next
    case other
    then show ?thesis
      by (simp add: aggregate_def time_key_of_def passed_back_def grouped_frame_def Let_def
            cong: option.case_cong)
  qed
qed

lemma aggregate_Inr:
  assumes "aggregate ob q ts cb m = Inr (qa, g, tk)"
  shows "tk = time_key_of ts" and "qa = passed_back ts q"
    and "g = sort_values (group_columns (time_key_of ts) cb)
               (groupby_sum (ts = ''Day of Week'' \<and> \<not> ob) 1
                  (group_columns (time_key_of ts) cb) m (grouped_frame ts q))"
    and "distinct (group_columns (time_key_of ts) cb @ [m])"
  using assms unfolding aggregate_cases
  by (auto split: if_splits option.splits)

lemma aggregate_error_columns:
  assumes "columns q' = columns q"
  shows "(\<exists>e. aggregate ob q' ts cb m = Inl e) \<longleftrightarrow> (\<exists>e. aggregate ob q ts cb m = Inl e)"
  unfolding aggregate_cases assms
  by (auto split: option.splits if_splits)

lemma rows_aggregate:
  assumes "aggregate ob q ts cb m = Inr (qa, g, tk)" and "r \<in> set (rows g)"
  shows "\<exists>k \<in> set (group_keys (ts = ''Day of Week'' \<and> \<not> ob) (group_columns tk cb) (grouped_frame ts q)).
           r = group_row (group_columns tk cb) m k
                 (sum_min_count 1 (map (\<lambda>x. x m) (filter (\<lambda>x. map x (group_columns tk cb) = k) (grouped ts q))))"
proof -
  note a = aggregate_Inr [OF assms(1)]
  from assms(2) show ?thesis
    unfolding a(3) a(1) by (auto simp: sort_values_def groupby_sum_def)
qed

lemma group_columns_nonempty [simp]: "group_columns tk cb \<noteq> []"
  by (simp add: group_columns_def)

lemma tl_group_columns: "tl (group_columns tk cb) \<noteq> [] \<longleftrightarrow> cb \<noteq> None \<and> cb \<noteq> Some []"
  by (auto simp: group_columns_def split: option.splits)

lemma aggregate_row:
  assumes a: "aggregate ob q ts cb m = Inr (qa, g, tk)" and r: "r \<in> set (rows g)"
  shows "r m = sum_min_count 1 (contributing (group_columns tk cb) m (grouped ts q) r)"
proof -
  let ?cols = "group_columns tk cb"
  from rows_aggregate [OF a r] obtain k where
    k: "k \<in> set (group_keys (ts = ''Day of Week'' \<and> \<not> ob) ?cols (grouped_frame ts q))"
    and e: "r = group_row ?cols m k
                 (sum_min_count 1 (map (\<lambda>x. x m) (filter (\<lambda>x. map x ?cols = k) (grouped ts q))))"
    by blast
  have d: "distinct (?cols @ [m])" using aggregate_Inr(1,4) [OF a] by simp
  have len: "length k = length ?cols" by (rule group_keys_length [OF _ k]) simp
  have key: "map r ?cols = k"
    unfolding e using d len by (intro group_row_key) auto
  show ?thesis
    unfolding contributing_def key by (subst e) simp
qed

lemma aggregate_groups_present:
  assumes a: "aggregate ob q ts cb m = Inr (qa, g, tk)" and x: "x \<in> set (grouped ts q)"
  shows "\<exists>r\<in>set (rows g). map r (group_columns tk cb) = map x (group_columns tk cb)"
proof -
  let ?cols = "group_columns tk cb"
  let ?ac = "ts = ''Day of Week'' \<and> \<not> ob"
  note i = aggregate_Inr [OF a]
  have d: "distinct (?cols @ [m])" using i(1,4) by simp
  from x have k: "map x ?cols \<in> set (group_keys ?ac ?cols (grouped_frame ts q))"
    by (intro group_keys_seen) simp
  define f where "f = (\<lambda>k. group_row ?cols m k
       (sum_min_count 1 (map (\<lambda>y. y m) (filter (\<lambda>y. map y ?cols = k) (grouped ts q)))))"
  have "set (rows g) = f ` set (group_keys ?ac ?cols (grouped_frame ts q))"
    unfolding i(3) i(1) [symmetric] f_def
    by (simp add: sort_values_def groupby_sum_def)
  with k have "f (map x ?cols) \<in> set (rows g)" by blast
  moreover have "map (f (map x ?cols)) ?cols = map x ?cols"
    unfolding f_def using d by (intro group_row_key) auto
  ultimately show ?thesis by blast
qed

lemma sum_min_count_1:
  "sum_min_count 1 vs = (if numbers vs = [] then NaN else Num (sum_list (numbers vs)))"
  by (cases "numbers vs") (simp_all add: sum_min_count_def)

lemma aggregate_ok_iff:
  "(\<exists>qa g tk. aggregate ob q ts cb m = Inr (qa, g, tk))
     \<longleftrightarrow> set (group_columns (time_key_of ts) cb @ [m]) \<subseteq> set (columns q)
          \<and> distinct (group_columns (time_key_of ts) cb @ [m])"
proof -
  have t: "time_key_of ts \<in> set (group_columns (time_key_of ts) cb @ [m])"
    by (simp add: group_columns_def)
  have f: "find (\<lambda>c. c \<notin> set (columns q)) xs = None \<longleftrightarrow> set xs \<subseteq> set (columns q)" for xs
    by (auto simp: find_None_iff)
  show ?thesis
  proof (cases "set (group_columns (time_key_of ts) cb @ [m]) \<subseteq> set (columns q)")
    case True
    with t have k: "time_key_of ts \<in> set (columns q)" by blast
    then have "\<not> (ts = ''Day of Week'' \<and> ''DayOfWeek'' \<notin> set (columns q))"
      and "\<not> (ts = ''Ski Season'' \<and> ''SkiSeason'' \<notin> set (columns q))"
      by (auto simp: time_key_of_def)
    with True f [of "group_columns (time_key_of ts) cb @ [m]"] show ?thesis
      unfolding aggregate_cases by (simp only: if_False option.case) auto
  next
    case False
    with f [of "group_columns (time_key_of ts) cb @ [m]"]
    obtain c where "find (\<lambda>c. c \<notin> set (columns q)) (group_columns (time_key_of ts) cb @ [m]) = Some c"
      by (cases "find (\<lambda>c. c \<notin> set (columns q)) (group_columns (time_key_of ts) cb @ [m])") auto
    with False show ?thesis
      unfolding aggregate_cases by (simp only: option.case) auto
  qed
qed

text \<open>
  C5. When \<open>aggregate\<close> returns, the grouped table has the time key, the comparison
  dimension when one is selected, and the metric as its columns; every key that occurs
  among the grouped rows has a row in it; and the metric of each of its rows is the sum
  of the numbers among the contributing cells, and is missing, not 0, when there is no
  number among them, in particular when all of them are missing.
  \<open>aggregate\<close> returns exactly when the grouping columns and the metric are columns of
  the table and pairwise different, whatever the rows are: a selection that matches no
  row fails only where the full table fails. On a table without rows the result has no
  row with a sum, and no row at all when a comparison dimension is selected, or the
  time slice is not the day of the week, or only observed categories are listed.
\<close>

theorem group_sum_absent_when_all_null:
  "(aggregate ob q ts cb m = Inr (qa, g, tk) \<longrightarrow>
      tk = time_key_of ts \<and> columns g = group_columns tk cb @ [m]
      \<and> (\<forall>x\<in>set (grouped ts q).
            \<exists>r\<in>set (rows g). map r (group_columns tk cb) = map x (group_columns tk cb))
      \<and> (\<forall>r\<in>set (rows g).
            r m = (if numbers (contributing (group_columns tk cb) m (grouped ts q) r) = [] then NaN
                   else Num (sum_list (numbers (contributing (group_columns tk cb) m (grouped ts q) r))))
            \<and> ((\<forall>v\<in>set (contributing (group_columns tk cb) m (grouped ts q) r). v = NaN)
                 \<longrightarrow> r m = NaN)))
   \<and> ((\<exists>qa g tk. aggregate ob q ts cb m = Inr (qa, g, tk))
        \<longleftrightarrow> set (group_columns (time_key_of ts) cb @ [m]) \<subseteq> set (columns q)
             \<and> distinct (group_columns (time_key_of ts) cb @ [m]))
   \<and> ((\<exists>e. aggregate ob (boolean_mask (\<lambda>r. False) q) ts cb m = Inl e)
        \<longleftrightarrow> (\<exists>e. aggregate ob q ts cb m = Inl e))
   \<and> (rows q = [] \<longrightarrow> aggregate ob q ts cb m = Inr (qa, g, tk) \<longrightarrow>
        (\<forall>r\<in>set (rows g). r m = NaN)
        \<and> (ob \<or> ts \<noteq> ''Day of Week'' \<or> (cb \<noteq> None \<and> cb \<noteq> Some []) \<longrightarrow> rows g = []))"
proof (intro conjI impI ballI)
  assume a: "aggregate ob q ts cb m = Inr (qa, g, tk)"
  show "tk = time_key_of ts" by (rule aggregate_Inr(1) [OF a])
  show "columns g = group_columns tk cb @ [m]"
    unfolding aggregate_Inr(3) [OF a] aggregate_Inr(1) [OF a]
    by (simp add: sort_values_def groupby_sum_def)
next
  fix x assume "aggregate ob q ts cb m = Inr (qa, g, tk)" and "x \<in> set (grouped ts q)"
  then show "\<exists>r\<in>set (rows g). map r (group_columns tk cb) = map x (group_columns tk cb)"
    by (rule aggregate_groups_present)
next
  fix r assume a: "aggregate ob q ts cb m = Inr (qa, g, tk)" and r: "r \<in> set (rows g)"
  show "r m = (if numbers (contributing (group_columns tk cb) m (grouped ts q) r) = [] then NaN
               else Num (sum_list (numbers (contributing (group_columns tk cb) m (grouped ts q) r))))"
    using aggregate_row [OF a r] by (simp only: sum_min_count_1)
next
  fix r assume a: "aggregate ob q ts cb m = Inr (qa, g, tk)" and r: "r \<in> set (rows g)"
    and n: "\<forall>v\<in>set (contributing (group_columns tk cb) m (grouped ts q) r). v = NaN"
  show "r m = NaN"
    unfolding aggregate_row [OF a r] sum_min_count_1 using numbers_all_NaN [OF n] by simp
next
  show "(\<exists>qa g tk. aggregate ob q ts cb m = Inr (qa, g, tk))
        \<longleftrightarrow> set (group_columns (time_key_of ts) cb @ [m]) \<subseteq> set (columns q)
             \<and> distinct (group_columns (time_key_of ts) cb @ [m])"
    by (rule aggregate_ok_iff)
next
  show "(\<exists>e. aggregate ob (boolean_mask (\<lambda>r. False) q) ts cb m = Inl e)
          \<longleftrightarrow> (\<exists>e. aggregate ob q ts cb m = Inl e)"
    by (rule aggregate_error_columns) simp
next
  fix r assume e: "rows q = []" and a: "aggregate ob q ts cb m = Inr (qa, g, tk)"
    and r: "r \<in> set (rows g)"
  from e have "grouped ts q = []" by (simp add: grouped_def)
  then show "r m = NaN"
    unfolding aggregate_row [OF a r] sum_min_count_1 by (simp add: contributing_def)
next
  assume e: "rows q = []" and a: "aggregate ob q ts cb m = Inr (qa, g, tk)"
    and c: "ob \<or> ts \<noteq> ''Day of Week'' \<or> (cb \<noteq> None \<and> cb \<noteq> Some [])"
  from e have "rows (grouped_frame ts q) = []" by (simp add: grouped_def)
  moreover from c have "\<not> (ts = ''Day of Week'' \<and> \<not> ob) \<or> tl (group_columns (time_key_of ts) cb) \<noteq> []"
    by (auto simp: tl_group_columns)
  ultimately have "group_keys (ts = ''Day of Week'' \<and> \<not> ob) (group_columns (time_key_of ts) cb)
                     (grouped_frame ts q) = []"
    by (rule group_keys_empty)
  then show "rows g = []"
    unfolding aggregate_Inr(3) [OF a] by (simp add: sort_values_def groupby_sum_def)
qed

theorem group_sum_absent_when_all_null_witness:
  "(\<exists>qa g tk. aggregate True df_null ''Month'' (Some ''ItemName'') ''NetRevenue'' = Inr (qa, g, tk)
       \<and> tk = ''Month''
       \<and> to_csv g = ([''Month'', ''ItemName'', ''NetRevenue''],
                      [[Ts (Timestamp 2024 1 1), Str ''Burger'', NaN],
                       [Ts (Timestamp 2024 1 1), Str ''Fries'', Num 5]]))
   \<and> (\<exists>qa g tk. aggregate False df_none ''Month'' (Some ''ItemName'') ''NetRevenue'' = Inr (qa, g, tk)
         \<and> rows g = [])"
proof -
  have v: "map_sum id (\<lambda>(qa, g, tk). to_csv g)
             (aggregate True df_null ''Month'' (Some ''ItemName'') ''NetRevenue'')
           = Inr ([''Month'', ''ItemName'', ''NetRevenue''],
                      [[Ts (Timestamp 2024 1 1), Str ''Burger'', NaN],
                       [Ts (Timestamp 2024 1 1), Str ''Fries'', Num 5]])"
    by code_simp
  have "\<not> isl (aggregate True df_null ''Month'' (Some ''ItemName'') ''NetRevenue'')" by code_simp
  then obtain qa g tk where a: "aggregate True df_null ''Month'' (Some ''ItemName'') ''NetRevenue'' = Inr (qa, g, tk)"
    by (cases "aggregate True df_null ''Month'' (Some ''ItemName'') ''NetRevenue''") auto
  from group_sum_absent_when_all_null [of True df_null "''Month''" "Some ''ItemName''" "''NetRevenue''" qa g tk] a
  have "tk = time_key_of ''Month''" by blast
  then have t: "tk = ''Month''" by (simp add: time_key_of_def)
  from v a have c: "to_csv g = ([''Month'', ''ItemName'', ''NetRevenue''],
                      [[Ts (Timestamp 2024 1 1), Str ''Burger'', NaN],
                       [Ts (Timestamp 2024 1 1), Str ''Fries'', Num 5]])"
    by simp
  have "\<not> isl (aggregate False df_none ''Month'' (Some ''ItemName'') ''NetRevenue'')" by code_simp
  then obtain qa' g' tk' where b: "aggregate False df_none ''Month'' (Some ''ItemName'') ''NetRevenue'' = Inr (qa', g', tk')"
    by (cases "aggregate False df_none ''Month'' (Some ''ItemName'') ''NetRevenue''") auto
  have e: "rows df_none = []" by (simp add: df_none_def DataFrame_def)
  from group_sum_absent_when_all_null [of False df_none "''Month''" "Some ''ItemName''" "''NetRevenue''" qa' g' tk'] b e
  have "rows g' = []" by simp
  then show ?thesis using a t c b by blast
qed

text \<open>
  C8. The aggregation is not read-only on the day-of-week slice. The caller's
  table \<open>df_ex\<close> has day names in its DayOfWeek column; after
  \<open>aggregate\<close> with the time slice \<^verbatim>\<open>Day of Week\<close> that column of the caller's table
  holds the categorical values that line 76 assigned in place. On the ski-season slice,
  where line 79 copies, the column is as before.
\<close>

theorem aggregate_day_of_week_changes_input:
  "col ''DayOfWeek'' df_ex = [Str ''Monday'', Str ''Sunday'', Str ''Monday'', Str ''Friday'', Str ''Friday'']
   \<and> map_sum id (\<lambda>(q, agg, time_key). col ''DayOfWeek'' q)
        (aggregate True df_ex ''Day of Week'' (Some ''ItemName'') ''NetRevenue'')
       = Inr [Cat 0, Cat 6, Cat 0, Cat 4, Cat 4]
   \<and> map_sum id (\<lambda>(q, agg, time_key). col ''DayOfWeek'' q)
        (aggregate True df_ex ''Ski Season'' (Some ''ItemName'') ''NetRevenue'')
       = Inr [Str ''Monday'', Str ''Sunday'', Str ''Monday'', Str ''Friday'', Str ''Friday'']"
  by code_simp

subsection \<open>The Top-N ranking and the exported view\<close>

lemma make_fig_Inr:
  assumes "make_fig as_str agg tk cb m ct n = Inr (agg', fig, view)"
  shows "agg' = agg" and "data_frame fig = view"
    and "view = (case cb of
                   None \<Rightarrow> agg
                 | Some c \<Rightarrow> if c = [] then agg
                             else boolean_mask (\<lambda>r. as_str (r c) \<in> top_labels as_str agg c m n) agg)"
    and "\<forall>c. cb = Some c \<and> c \<noteq> [] \<longrightarrow> m \<noteq> c"
proof -
  consider (none) "cb = None" | (empty) "cb = Some []" | (sel) c where "cb = Some c" "c \<noteq> []"
    by (cases cb) auto
  then have "agg' = agg \<and> data_frame fig = view
      \<and> view = (case cb of
                   None \<Rightarrow> agg
                 | Some c \<Rightarrow> if c = [] then agg
                             else boolean_mask (\<lambda>r. as_str (r c) \<in> top_labels as_str agg c m n) agg)
      \<and> (\<forall>c. cb = Some c \<and> c \<noteq> [] \<longrightarrow> m \<noteq> c)"
  proof cases
    case none
    with assms show ?thesis by (auto simp: make_fig_def group_columns_def)
  next
    case empty
    with assms show ?thesis by (auto simp: make_fig_def group_columns_def)
  next
    case sel
    with assms show ?thesis
      by (auto simp: make_fig_def group_columns_def top_labels_def Let_def split: if_splits)
  qed
  then show "agg' = agg" and "data_frame fig = view"
    and "view = (case cb of
                   None \<Rightarrow> agg
                 | Some c \<Rightarrow> if c = [] then agg
                             else boolean_mask (\<lambda>r. as_str (r c) \<in> top_labels as_str agg c m n) agg)"
    and "\<forall>c. cb = Some c \<and> c \<noteq> [] \<longrightarrow> m \<noteq> c"
    by blast+
qed

lemma length_remdups_singletons: "length (remdups (map (\<lambda>v. [v]) xs)) = length (remdups xs)"
proof -
  have "card ((\<lambda>v. [v]) ` set xs) = card (set xs)"
    by (rule card_image) (simp add: inj_on_def)
  then show ?thesis by (simp add: length_remdups_card_conv)
qed

lemma top_labels_all:
  assumes cm: "m \<noteq> c" and le: "length (remdups (col c agg)) \<le> n" and r: "r \<in> set (rows agg)"
  shows "as_str (r c) \<in> top_labels as_str agg c m n"
proof -
  define F where "F = (\<lambda>k. group_row [c] m k
       (sum_min_count 0 (map (\<lambda>r. r m) (filter (\<lambda>r. map r [c] = k) (rows agg)))))"
  define ranked where "ranked = sort_by (\<lambda>a b. cell_le (b m) (a m)) (rows (groupby_sum False 0 [c] m agg))"
  have keys: "group_keys False [c] agg = sort_by key_le (remdups (map (\<lambda>v. [v]) (col c agg)))"
    by (simp add: group_keys_def Let_def col_def o_def)
  have rows: "rows (groupby_sum False 0 [c] m agg) = map F (group_keys False [c] agg)"
    by (simp add: groupby_sum_def F_def)
  have "length ranked = length (remdups (col c agg))"
    by (simp add: ranked_def rows keys length_remdups_singletons)
  with le have tk: "take n ranked = ranked" by simp
  have "[r c] \<in> set (group_keys False [c] agg)"
    using r by (auto simp: keys col_def)
  then have "F [r c] \<in> set ranked" by (simp add: ranked_def rows)
  moreover have "F [r c] c = r c" using cm by (simp add: F_def group_row_def)
  ultimately have "r c \<in> (\<lambda>x. x c) ` set ranked" by (metis image_eqI)
  then have "as_str (r c) \<in> set (map (\<lambda>x. as_str (x c)) ranked)" by auto
  then show ?thesis by (simp add: top_labels_def ranked_def [symmetric] tk)
qed

lemma card_top_labels: "card (top_labels as_str agg c m n) \<le> n"
proof -
  let ?xs = "map (\<lambda>r. as_str (r c))
            (take n (sort_by (\<lambda>a b. cell_le (b m) (a m)) (rows (groupby_sum False 0 [c] m agg))))"
  have "card (set ?xs) \<le> length ?xs" by (rule card_length)
  also have "\<dots> \<le> n" by simp
  finally show ?thesis by (simp add: top_labels_def)
qed

lemma app_Inr:
  assumes "app as_str ob df filters dr m ts c n ct = Inr page"
  shows "\<exists>q qa agg tk. filter_df df filters dr = Inr (df, q)
          \<and> aggregate ob q ts (Some c) m = Inr (qa, agg, tk)
          \<and> make_fig as_str agg tk (Some c) m ct n = Inr (agg, plotly_chart page, aggregated_view page)
          \<and> dataframe page = aggregated_view page \<and> filtered_rows page = qa"
proof -
  from assms obtain df' q where f: "filter_df df filters dr = Inr (df', q)"
    by (auto simp: app_def split: sum.splits)
  from filter_df_Inr [OF f] f have f': "filter_df df filters dr = Inr (df, q)" by simp
  from assms f' obtain qa agg tk where a: "aggregate ob q ts (Some c) m = Inr (qa, agg, tk)"
    by (auto simp: app_def split: sum.splits)
  from assms f' a obtain agg' fig view where
    g: "make_fig as_str agg tk (Some c) m ct n = Inr (agg', fig, view)"
    by (auto simp: app_def split: sum.splits)
  from assms f' a g have p: "page = \<lparr>plotly_chart = fig, dataframe = view,
                         filtered_rows = qa, aggregated_view = view\<rparr>"
    by (simp add: app_def)
  from make_fig_Inr(1) [OF g] g p f' a show ?thesis by auto
qed

text \<open>
  C4, as amended. When \<open>make_fig\<close> returns, the aggregated table it was given is
  unchanged and the view, which is also the table of the figure, has the columns of
  the aggregated table. With a comparison dimension selected the rows of the view are
  the rows of the aggregated table whose comparison value is among the kept ones, which
  are at most N; when the comparison dimension has at most N distinct values in the
  aggregated table, the view is the aggregated table, all rows retained. Without a
  comparison dimension the view is the aggregated table.
  The page shows and exports, as the aggregated view, the view that \<open>make_fig\<close> returns
  for the aggregated table, not the aggregated table itself.
\<close>

theorem top_n_restricts_exported_view:
  "(make_fig as_str agg tk cb m ct n = Inr (agg', fig, view) \<longrightarrow>
      agg' = agg \<and> data_frame fig = view \<and> columns view = columns agg
      \<and> (\<forall>c. cb = Some c \<and> c \<noteq> [] \<longrightarrow>
            rows view = filter (\<lambda>r. as_str (r c) \<in> top_labels as_str agg c m n) (rows agg)
            \<and> card (top_labels as_str agg c m n) \<le> n
            \<and> (length (remdups (col c agg)) \<le> n \<longrightarrow> view = agg))
      \<and> (cb = None \<or> cb = Some [] \<longrightarrow> view = agg))
   \<and> (app as_str ob df filters dr m ts c' n ct = Inr page \<longrightarrow>
        (\<exists>q qa agg tk. filter_df df filters dr = Inr (df, q)
           \<and> aggregate ob q ts (Some c') m = Inr (qa, agg, tk)
           \<and> make_fig as_str agg tk (Some c') m ct n = Inr (agg, plotly_chart page, aggregated_view page)
           \<and> dataframe page = aggregated_view page \<and> filtered_rows page = qa))"
proof (intro conjI impI allI)
  assume a: "make_fig as_str agg tk cb m ct n = Inr (agg', fig, view)"
  note i = make_fig_Inr [OF a]
  show "agg' = agg" by (rule i(1))
  show "data_frame fig = view" by (rule i(2))
  show "columns view = columns agg"
    unfolding i(3) by (simp split: option.splits)
next
  fix c assume a: "make_fig as_str agg tk cb m ct n = Inr (agg', fig, view)"
    and c: "cb = Some c \<and> c \<noteq> []"
  note i = make_fig_Inr [OF a]
  show "rows view = filter (\<lambda>r. as_str (r c) \<in> top_labels as_str agg c m n) (rows agg)"
    unfolding i(3) using c by simp
  show "card (top_labels as_str agg c m n) \<le> n" by (rule card_top_labels)
next
  fix c assume a: "make_fig as_str agg tk cb m ct n = Inr (agg', fig, view)"
    and c: "cb = Some c \<and> c \<noteq> []" and le: "length (remdups (col c agg)) \<le> n"
  note i = make_fig_Inr [OF a]
  from i(4) c have cm: "m \<noteq> c" by blast
  have "boolean_mask (\<lambda>r. as_str (r c) \<in> top_labels as_str agg c m n) agg = agg"
    by (rule boolean_mask_all) (rule top_labels_all [OF cm le])
  then show "view = agg" unfolding i(3) using c by simp
next
  assume a: "make_fig as_str agg tk cb m ct n = Inr (agg', fig, view)"
    and c: "cb = None \<or> cb = Some []"
  from c show "view = agg" unfolding make_fig_Inr(3) [OF a] by auto
next
  assume "app as_str ob df filters dr m ts c' n ct = Inr page"
  then show "\<exists>q qa agg tk. filter_df df filters dr = Inr (df, q)
           \<and> aggregate ob q ts (Some c') m = Inr (qa, agg, tk)
           \<and> make_fig as_str agg tk (Some c') m ct n = Inr (agg, plotly_chart page, aggregated_view page)
           \<and> dataframe page = aggregated_view page \<and> filtered_rows page = qa"
    by (rule app_Inr)
qed

theorem top_n_restricts_exported_view_witness:
  "(\<exists>fig. make_fig text_str agg5 ''Month'' (Some ''ItemName'') ''NetRevenue'' ''Bar'' 20 = Inr (agg5, fig, agg5))
   \<and> length (remdups (col ''ItemName'' agg5)) = 5
   \<and> (\<exists>page. app text_str True df_ex [] None ''NetRevenue'' ''Month'' ''ItemName'' 3 ''Bar'' = Inr page
         \<and> dataframe page = aggregated_view page
         \<and> length (rows (aggregated_view page)) = 3)"
proof -
  have "\<not> isl (make_fig text_str agg5 ''Month'' (Some ''ItemName'') ''NetRevenue'' ''Bar'' 20)"
    by code_simp
  then obtain agg' fig view where
    a: "make_fig text_str agg5 ''Month'' (Some ''ItemName'') ''NetRevenue'' ''Bar'' 20 = Inr (agg', fig, view)"
    by (cases "make_fig text_str agg5 ''Month'' (Some ''ItemName'') ''NetRevenue'' ''Bar'' 20") auto
  have n: "length (remdups (col ''ItemName'' agg5)) = 5" by code_simp
  from top_n_restricts_exported_view [where as_str = text_str and agg = agg5 and tk = "''Month''"
      and cb = "Some ''ItemName''" and m = "''NetRevenue''" and ct = "''Bar''" and n = 20
      and agg' = agg' and fig = fig and view = view] a n
  have "agg' = agg5 \<and> view = agg5" by simp
  with a have m: "\<exists>fig. make_fig text_str agg5 ''Month'' (Some ''ItemName'') ''NetRevenue'' ''Bar'' 20
                    = Inr (agg5, fig, agg5)"
    by blast
  have "\<not> isl (app text_str True df_ex [] None ''NetRevenue'' ''Month'' ''ItemName'' 3 ''Bar'')"
    by code_simp
  then obtain page where
    p: "app text_str True df_ex [] None ''NetRevenue'' ''Month'' ''ItemName'' 3 ''Bar'' = Inr page"
    by (cases "app text_str True df_ex [] None ''NetRevenue'' ''Month'' ''ItemName'' 3 ''Bar''") auto
  have "map_sum id (\<lambda>page. length (rows (aggregated_view page)))
          (app text_str True df_ex [] None ''NetRevenue'' ''Month'' ''ItemName'' 3 ''Bar'') = Inr 3"
    by code_simp
  with p have l: "length (rows (aggregated_view page)) = 3" by simp
  from top_n_restricts_exported_view [where as_str = text_str and ob = True and df = df_ex
      and filters = "[]" and dr = None and m = "''NetRevenue''" and ts = "''Month''"
      and c' = "''ItemName''" and n = 3 and ct = "''Bar''" and page = page] p
  have "dataframe page = aggregated_view page" by blast
  with m n p l show ?thesis by blast
qed

text \<open>
  C4 as stated fails: the table used for the aggregated-view export is altered by the
  ranking. With N = 3 and four item names the aggregated table has four rows and the
  exported view has three: the row of Fries, the item with the smallest total, is not
  exported.
\<close>

theorem top_n_export_counterexample:
  "map_sum id (\<lambda>(q, agg, time_key). to_csv agg)
     (aggregate True df_ex ''Month'' (Some ''ItemName'') ''NetRevenue'')
     = Inr ([''Month'', ''ItemName'', ''NetRevenue''],
            [[Ts (Timestamp 2024 1 1), Str ''Burger'', Num 15],
             [Ts (Timestamp 2024 1 1), Str ''Fries'', NaN],
             [Ts (Timestamp 2024 6 1), Str ''Cola'', Num 1],
             [Ts (Timestamp 2024 6 1), Str ''Soda'', Num 2]])
   \<and> map_sum id (\<lambda>page. to_csv (aggregated_view page))
       (app text_str True df_ex [] None ''NetRevenue'' ''Month'' ''ItemName'' 3 ''Bar'')
     = Inr ([''Month'', ''ItemName'', ''NetRevenue''],
            [[Ts (Timestamp 2024 1 1), Str ''Burger'', Num 15],
             [Ts (Timestamp 2024 6 1), Str ''Cola'', Num 1],
             [Ts (Timestamp 2024 6 1), Str ''Soda'', Num 2]])"
  by code_simp

end
